theory Spec2Isabelle
  imports Complex_Main "HOL-Library.Multiset"
begin

section \<open>Data model of the canvas editor (CanvasEditor.tsx)\<close>

text \<open>
  JavaScript numbers are modelled as reals (NaN, the infinities and rounding are outside the
  model). A field \<open>f\<close> of \<open>CanvasElement\<close> is written \<open>el_f\<close>; the fields of
  \<open>CanvasElement['style']\<close> keep their names. An optional field (\<open>f?: t\<close>) has an option
  type, \<open>None\<close> standing for \<open>undefined\<close>.

  A JavaScript object can hold keys that its TypeScript type does not declare (a spread copies
  every own key of its operand). Such keys are kept, in order, in the \<open>extra\<close> list of the
  record.
\<close>

datatype element_type = Text | Image | Cta | Logo | Shape

datatype jsval = JUndefined | JNum real | JStr string | JBool bool

datatype bg_type = BgImage | BgColor | BgGradient

datatype aspect_ratio = R1_1 | R16_9 | R9_16 | R3_4 | R4_5

record style =
  fontSize :: "real option"
  fontFamily :: "string option"
  fontWeight :: "string option"
  fontStyle :: "string option"
  textDecoration :: "string option"
  lineHeight :: "real option"
  letterSpacing :: "real option"
  color :: "string option"
  gradient :: "string option"
  backgroundColor :: "string option"
  textAlign :: "string option"
  borderRadius :: "real option"
  padding :: "real option"
  zIndex :: real
  opacity :: "real option"
  borderWidth :: "real option"
  borderColor :: "string option"
  style_extra :: "(string \<times> jsval) list"

record element =
  el_id :: string
  el_type :: element_type
  el_content :: string
  el_x :: real
  el_y :: real
  el_width :: real
  el_height :: real
  el_rotation :: real
  el_scaleX :: "real option"
  el_scaleY :: "real option"
  el_groupId :: "string option"
  el_locked :: "bool option"
  el_style :: style
  el_extra :: "(string \<times> jsval) list"

text \<open>\<open>BackgroundState\<close>, the optional prop \<open>initialBackgroundState\<close>.\<close>

record background_state =
  bs_type :: bg_type
  bs_value :: string
  bs_opacity :: real
  bs_scale :: "real option"
  bs_x :: "real option"
  bs_y :: "real option"

text \<open>One entry of the \<open>history\<close> array.\<close>

record snapshot =
  h_elements :: "element list"
  h_bgValue :: string
  h_bgType :: bg_type
  h_bgOpacity :: real
  h_bgScale :: real
  h_bgX :: real
  h_bgY :: real

text \<open>The \<open>bgDragStart\<close> ref.\<close>

record bg_drag =
  bd_x :: real
  bd_y :: real
  bd_initialX :: real
  bd_initialY :: real
  bd_initialScale :: real

text \<open>
  The \<open>useState\<close> and \<open>useRef\<close> cells of the component that the modelled handlers read
  or write, and the \<open>aspectRatio\<close> prop. A handler is a function from the state of the render
  it was created in to the state of the next render.
\<close>

record editor =
  elements :: "element list"
  selectedIds :: "string list"
  bgValue :: string
  bgType :: bg_type
  bgOpacity :: real
  bgScale :: real
  bgX :: real
  bgY :: real
  history :: "snapshot list"
  historyIndex :: nat
  isDragging :: bool
  isResizing :: bool
  isRotating :: bool
  isEditingText :: bool
  potentialDrag :: bool
  dragStart :: "real \<times> real"
  elementsStart :: "string \<rightharpoonup> element"
  isDraggingBg :: bool
  isResizingBg :: bool
  bgDragStart :: bg_drag
  zoomLevel :: real
  aspectRatio :: aspect_ratio

text \<open>\<open>x ?? d\<close> on an optional value.\<close>

definition nullish :: "'a option \<Rightarrow> 'a \<Rightarrow> 'a" where
  "nullish v d = (case v of None \<Rightarrow> d | Some a \<Rightarrow> a)"

text \<open>
  The initial state (lines 116--162): the element list gets \<open>scaleX\<close> and \<open>scaleY\<close>
  defaulted to 1, while the first history entry holds the \<open>initialElements\<close> prop as it came.
  \<open>a || b\<close> on a string takes \<open>b\<close> when \<open>a\<close> is empty.
\<close>

definition defaultScale :: "element \<Rightarrow> element" where
  "defaultScale el = el\<lparr>el_scaleX := Some (nullish (el_scaleX el) 1),
                        el_scaleY := Some (nullish (el_scaleY el) 1)\<rparr>"

definition initialEditor ::
  "string \<Rightarrow> element list \<Rightarrow> background_state option \<Rightarrow> aspect_ratio \<Rightarrow> editor" where
  "initialEditor backgroundImage initialElements initialBackgroundState ratio =
    (let bgT = (case initialBackgroundState of None \<Rightarrow> BgImage | Some b \<Rightarrow> bs_type b);
         bgV = (case initialBackgroundState of None \<Rightarrow> backgroundImage
                | Some b \<Rightarrow> if bs_value b = [] then backgroundImage else bs_value b);
         bgO = (case initialBackgroundState of None \<Rightarrow> 1 | Some b \<Rightarrow> bs_opacity b);
         bgS = (case initialBackgroundState of None \<Rightarrow> 1 | Some b \<Rightarrow> nullish (bs_scale b) 1);
         bx = (case initialBackgroundState of None \<Rightarrow> 0 | Some b \<Rightarrow> nullish (bs_x b) 0);
         by = (case initialBackgroundState of None \<Rightarrow> 0 | Some b \<Rightarrow> nullish (bs_y b) 0)
     in \<lparr>elements = map defaultScale initialElements,
         selectedIds = [],
         bgValue = bgV, bgType = bgT, bgOpacity = bgO, bgScale = bgS, bgX = bx, bgY = by,
         history = [\<lparr>h_elements = initialElements, h_bgValue = bgV, h_bgType = bgT,
                     h_bgOpacity = bgO, h_bgScale = bgS, h_bgX = bx, h_bgY = by\<rparr>],
         historyIndex = 0,
         isDragging = False, isResizing = False, isRotating = False, isEditingText = False,
         potentialDrag = False,
         dragStart = (0, 0), elementsStart = Map.empty,
         isDraggingBg = False, isResizingBg = False,
         bgDragStart = \<lparr>bd_x = 0, bd_y = 0, bd_initialX = 0, bd_initialY = 0, bd_initialScale = 1\<rparr>,
         zoomLevel = 0.6,
         aspectRatio = ratio\<rparr>)"

section \<open>History management\<close>

text \<open>
  \<open>saveToHistory\<close> (lines 207--229). \<open>JSON.parse(JSON.stringify(v))\<close> is a deep copy; values
  of the model are immutable, so the copy is the value itself.
\<close>

definition saveToHistory ::
  "element list \<Rightarrow> string \<Rightarrow> bg_type \<Rightarrow> real \<Rightarrow> real \<Rightarrow> real \<Rightarrow> real \<Rightarrow> editor \<Rightarrow> editor" where
  "saveToHistory newElements newBg newBgType newBgOpacity newBgScale newBgX newBgY s =
    (let pushed = take (historyIndex s + 1) (history s) @
           [\<lparr>h_elements = newElements, h_bgValue = newBg, h_bgType = newBgType,
             h_bgOpacity = newBgOpacity, h_bgScale = newBgScale, h_bgX = newBgX, h_bgY = newBgY\<rparr>];
         newHistory = (if length pushed > 20 then tl pushed else pushed)
     in s\<lparr>history := newHistory, historyIndex := length newHistory - 1\<rparr>)"

text \<open>\<open>saveToHistory(newElements)\<close>: the other parameters default to the current state.\<close>

definition saveElements :: "element list \<Rightarrow> editor \<Rightarrow> editor" where
  "saveElements newElements s =
     saveToHistory newElements (bgValue s) (bgType s) (bgOpacity s) (bgScale s) (bgX s) (bgY s) s"

text \<open>The state setters that \<open>undo\<close> and \<open>redo\<close> call with the fields of an entry.\<close>

definition restore :: "snapshot \<Rightarrow> editor \<Rightarrow> editor" where
  "restore e s = s\<lparr>elements := h_elements e, bgValue := h_bgValue e, bgType := h_bgType e,
                    bgOpacity := h_bgOpacity e, bgScale := h_bgScale e,
                    bgX := h_bgX e, bgY := h_bgY e\<rparr>"

text \<open>
  \<open>undo\<close> (lines 231--243). When \<open>history[historyIndex - 1]\<close> is out of range the handler
  throws at \<open>prev.elements\<close>, after \<open>setHistoryIndex\<close> was called: only the index changes.
  Every entry holds numbers for the background fields, so the defaults of \<open>prev.bgOpacity ?? 1\<close>
  and its like are never taken.
\<close>

definition undo :: "editor \<Rightarrow> editor" where
  "undo s =
    (if historyIndex s > 0 then
       (if historyIndex s - 1 < length (history s)
        then restore (history s ! (historyIndex s - 1)) (s\<lparr>historyIndex := historyIndex s - 1\<rparr>)
        else s\<lparr>historyIndex := historyIndex s - 1\<rparr>)
     else s)"


text \<open>The scene that the editor shows: what a history entry records.\<close>

definition scene :: "editor \<Rightarrow> snapshot" where
  "scene s = \<lparr>h_elements = elements s, h_bgValue = bgValue s, h_bgType = bgType s,
              h_bgOpacity = bgOpacity s, h_bgScale = bgScale s, h_bgX = bgX s, h_bgY = bgY s\<rparr>"

text \<open>
  The history after exactly one new entry \<open>e\<close>, in the words of the specification: the
  entries beyond the cursor are discarded, \<open>e\<close> is appended, and the oldest entry is evicted
  when more than 20 would be retained.
\<close>

definition withNewEntry :: "editor \<Rightarrow> snapshot \<Rightarrow> snapshot list" where
  "withNewEntry s e =
     drop (if 20 \<le> length (take (historyIndex s + 1) (history s)) then 1 else 0)
          (take (historyIndex s + 1) (history s)) @ [e]"

text \<open>
  A committed edit, as the editing handlers do it: the state setters are called with the
  new scene, and \<open>saveToHistory\<close> with the same values (\<open>handleGenerateBackground\<close>
  alone saves an opacity that it does not set).
\<close>

definition commitEdit :: "snapshot \<Rightarrow> editor \<Rightarrow> editor" where
  "commitEdit e s =
     saveToHistory (h_elements e) (h_bgValue e) (h_bgType e) (h_bgOpacity e) (h_bgScale e)
       (h_bgX e) (h_bgY e) (restore e s)"

section \<open>Element operations\<close>

text \<open>Truthiness of an optional boolean (\<open>el.locked\<close> in a condition).\<close>

definition truthy :: "bool option \<Rightarrow> bool" where
  "truthy b = (b = Some True)"

text \<open>
  A patch (the \<open>updates\<close> argument of \<open>updateSelected\<close>) has the type
  \<open>Partial<CanvasElement> | Partial<CanvasElement['style']>\<close>. It is modelled as the list of
  its own keys in their order, each with a value of the type the key is declared with; a key that
  is optional in \<open>CanvasElement\<close> or in its style may hold \<open>undefined\<close> (\<open>None\<close>), as the
  callers pass it (\<open>gradient: undefined\<close>). Two kinds of patches are not values of the model:
  one with the key \<open>style\<close>, whose value is an object (no caller passes it), and one that
  holds \<open>undefined\<close> under a required key such as \<open>x\<close> or \<open>zIndex\<close>, after which the
  element would not be a \<open>CanvasElement\<close> any more. An object has every key once; in a list that
  repeats a key the last entry counts.
\<close>

datatype patch_entry =
    P_id string | P_type element_type | P_content string
  | P_x real | P_y real | P_width real | P_height real | P_rotation real
  | P_scaleX "real option" | P_scaleY "real option"
  | P_groupId "string option" | P_locked "bool option"
  | P_fontSize "real option" | P_fontFamily "string option" | P_fontWeight "string option"
  | P_fontStyle "string option" | P_textDecoration "string option"
  | P_lineHeight "real option" | P_letterSpacing "real option"
  | P_color "string option" | P_gradient "string option" | P_backgroundColor "string option"
  | P_textAlign "string option" | P_borderRadius "real option" | P_padding "real option"
  | P_zIndex real | P_opacity "real option" | P_borderWidth "real option"
  | P_borderColor "string option"

type_synonym patch = "patch_entry list"

definition typeName :: "element_type \<Rightarrow> string" where
  "typeName t = (case t of Text \<Rightarrow> ''text'' | Image \<Rightarrow> ''image'' | Cta \<Rightarrow> ''cta''
                 | Logo \<Rightarrow> ''logo'' | Shape \<Rightarrow> ''shape'')"

text \<open>An optional value as a JavaScript value.\<close>

definition ofNum :: "real option \<Rightarrow> jsval" where
  "ofNum v = (case v of None \<Rightarrow> JUndefined | Some r \<Rightarrow> JNum r)"

definition ofStr :: "string option \<Rightarrow> jsval" where
  "ofStr v = (case v of None \<Rightarrow> JUndefined | Some t \<Rightarrow> JStr t)"

definition ofBool :: "bool option \<Rightarrow> jsval" where
  "ofBool v = (case v of None \<Rightarrow> JUndefined | Some b \<Rightarrow> JBool b)"

text \<open>The key of an entry (an element of \<open>Object.keys(updates)\<close>) and its value.\<close>

fun keyOf :: "patch_entry \<Rightarrow> string" where
  "keyOf (P_id v) = ''id''"
| "keyOf (P_type v) = ''type''"
| "keyOf (P_content v) = ''content''"
| "keyOf (P_x v) = ''x''"
| "keyOf (P_y v) = ''y''"
| "keyOf (P_width v) = ''width''"
| "keyOf (P_height v) = ''height''"
| "keyOf (P_rotation v) = ''rotation''"
| "keyOf (P_scaleX v) = ''scaleX''"
| "keyOf (P_scaleY v) = ''scaleY''"
| "keyOf (P_groupId v) = ''groupId''"
| "keyOf (P_locked v) = ''locked''"
| "keyOf (P_fontSize v) = ''fontSize''"
| "keyOf (P_fontFamily v) = ''fontFamily''"
| "keyOf (P_fontWeight v) = ''fontWeight''"
| "keyOf (P_fontStyle v) = ''fontStyle''"
| "keyOf (P_textDecoration v) = ''textDecoration''"
| "keyOf (P_lineHeight v) = ''lineHeight''"
| "keyOf (P_letterSpacing v) = ''letterSpacing''"
| "keyOf (P_color v) = ''color''"
| "keyOf (P_gradient v) = ''gradient''"
| "keyOf (P_backgroundColor v) = ''backgroundColor''"
| "keyOf (P_textAlign v) = ''textAlign''"
| "keyOf (P_borderRadius v) = ''borderRadius''"
| "keyOf (P_padding v) = ''padding''"
| "keyOf (P_zIndex v) = ''zIndex''"
| "keyOf (P_opacity v) = ''opacity''"
| "keyOf (P_borderWidth v) = ''borderWidth''"
| "keyOf (P_borderColor v) = ''borderColor''"

fun valueOf :: "patch_entry \<Rightarrow> jsval" where
  "valueOf (P_id v) = JStr v"
| "valueOf (P_type v) = JStr (typeName v)"
| "valueOf (P_content v) = JStr v"
| "valueOf (P_x v) = JNum v"
| "valueOf (P_y v) = JNum v"
| "valueOf (P_width v) = JNum v"
| "valueOf (P_height v) = JNum v"
| "valueOf (P_rotation v) = JNum v"
| "valueOf (P_scaleX v) = ofNum v"
| "valueOf (P_scaleY v) = ofNum v"
| "valueOf (P_groupId v) = ofStr v"
| "valueOf (P_locked v) = ofBool v"
| "valueOf (P_fontSize v) = ofNum v"
| "valueOf (P_fontFamily v) = ofStr v"
| "valueOf (P_fontWeight v) = ofStr v"
| "valueOf (P_fontStyle v) = ofStr v"
| "valueOf (P_textDecoration v) = ofStr v"
| "valueOf (P_lineHeight v) = ofNum v"
| "valueOf (P_letterSpacing v) = ofNum v"
| "valueOf (P_color v) = ofStr v"
| "valueOf (P_gradient v) = ofStr v"
| "valueOf (P_backgroundColor v) = ofStr v"
| "valueOf (P_textAlign v) = ofStr v"
| "valueOf (P_borderRadius v) = ofNum v"
| "valueOf (P_padding v) = ofNum v"
| "valueOf (P_zIndex v) = JNum v"
| "valueOf (P_opacity v) = ofNum v"
| "valueOf (P_borderWidth v) = ofNum v"
| "valueOf (P_borderColor v) = ofStr v"

text \<open>Writing a key of an object that has no declared field for it, and reading one.\<close>

definition putKey :: "string \<Rightarrow> jsval \<Rightarrow> (string \<times> jsval) list \<Rightarrow> (string \<times> jsval) list" where
  "putKey k v kvs = (if k \<in> fst ` set kvs
                     then map (\<lambda>(k', v'). if k' = k then (k', v) else (k', v')) kvs
                     else kvs @ [(k, v)])"


text \<open>
  One key of \<open>...updates\<close> spread into a style object (line 270): the key is overwritten with
  the value of the patch. A key that the style does not declare is added to the object.
\<close>

fun assignStyle :: "patch_entry \<Rightarrow> style \<Rightarrow> style" where
  "assignStyle (P_fontSize v) st = st\<lparr>fontSize := v\<rparr>"
| "assignStyle (P_fontFamily v) st = st\<lparr>fontFamily := v\<rparr>"
| "assignStyle (P_fontWeight v) st = st\<lparr>fontWeight := v\<rparr>"
| "assignStyle (P_fontStyle v) st = st\<lparr>fontStyle := v\<rparr>"
| "assignStyle (P_textDecoration v) st = st\<lparr>textDecoration := v\<rparr>"
| "assignStyle (P_lineHeight v) st = st\<lparr>lineHeight := v\<rparr>"
| "assignStyle (P_letterSpacing v) st = st\<lparr>letterSpacing := v\<rparr>"
| "assignStyle (P_color v) st = st\<lparr>color := v\<rparr>"
| "assignStyle (P_gradient v) st = st\<lparr>gradient := v\<rparr>"
| "assignStyle (P_backgroundColor v) st = st\<lparr>backgroundColor := v\<rparr>"
| "assignStyle (P_textAlign v) st = st\<lparr>textAlign := v\<rparr>"
| "assignStyle (P_borderRadius v) st = st\<lparr>borderRadius := v\<rparr>"
| "assignStyle (P_padding v) st = st\<lparr>padding := v\<rparr>"
| "assignStyle (P_zIndex v) st = st\<lparr>zIndex := v\<rparr>"
| "assignStyle (P_opacity v) st = st\<lparr>opacity := v\<rparr>"
| "assignStyle (P_borderWidth v) st = st\<lparr>borderWidth := v\<rparr>"
| "assignStyle (P_borderColor v) st = st\<lparr>borderColor := v\<rparr>"
| "assignStyle e st = st\<lparr>style_extra := putKey (keyOf e) (valueOf e) (style_extra st)\<rparr>"

text \<open>One key of \<open>...updates\<close> spread into an element object (line 272).\<close>

fun assignTop :: "patch_entry \<Rightarrow> element \<Rightarrow> element" where
  "assignTop (P_id v) el = el\<lparr>el_id := v\<rparr>"
| "assignTop (P_type v) el = el\<lparr>el_type := v\<rparr>"
| "assignTop (P_content v) el = el\<lparr>el_content := v\<rparr>"
| "assignTop (P_x v) el = el\<lparr>el_x := v\<rparr>"
| "assignTop (P_y v) el = el\<lparr>el_y := v\<rparr>"
| "assignTop (P_width v) el = el\<lparr>el_width := v\<rparr>"
| "assignTop (P_height v) el = el\<lparr>el_height := v\<rparr>"
| "assignTop (P_rotation v) el = el\<lparr>el_rotation := v\<rparr>"
| "assignTop (P_scaleX v) el = el\<lparr>el_scaleX := v\<rparr>"
| "assignTop (P_scaleY v) el = el\<lparr>el_scaleY := v\<rparr>"
| "assignTop (P_groupId v) el = el\<lparr>el_groupId := v\<rparr>"
| "assignTop (P_locked v) el = el\<lparr>el_locked := v\<rparr>"
| "assignTop e el = el\<lparr>el_extra := putKey (keyOf e) (valueOf e) (el_extra el)\<rparr>"





definition styleKeys :: "string list" where
  "styleKeys = [''fontSize'', ''fontFamily'', ''fontWeight'', ''fontStyle'', ''textDecoration'',
     ''lineHeight'', ''letterSpacing'', ''color'', ''gradient'', ''backgroundColor'', ''textAlign'',
     ''borderRadius'', ''padding'', ''opacity'', ''zIndex'', ''borderWidth'', ''borderColor'']"

definition isStyleUpdate :: "patch \<Rightarrow> bool" where
  "isStyleUpdate updates = list_ex (\<lambda>k. k \<in> set styleKeys) (map keyOf updates)"

text \<open>\<open>updateSelected\<close> (lines 261--276): the callback of \<open>elements.map\<close>, then the handler.\<close>

definition updateElement :: "patch \<Rightarrow> string list \<Rightarrow> element \<Rightarrow> element" where
  "updateElement updates sel el =
    (if el_id el \<notin> set sel then el
     else if truthy (el_locked el) then el
     else if isStyleUpdate updates
       then el\<lparr>el_style := fold assignStyle updates (el_style el)\<rparr>
       else fold assignTop updates el)"

definition updateSelected :: "patch \<Rightarrow> editor \<Rightarrow> editor" where
  "updateSelected updates s =
    (let updated = map (updateElement updates (selectedIds s)) (elements s)
     in saveElements updated (s\<lparr>elements := updated\<rparr>))"

text \<open>\<open>toggleLock\<close> (lines 308--317).\<close>

definition toggleLock :: "editor \<Rightarrow> editor" where
  "toggleLock s =
    (let updated = map (\<lambda>el. if el_id el \<in> set (selectedIds s)
                                then el\<lparr>el_locked := Some (\<not> truthy (el_locked el))\<rparr> else el)
                       (elements s)
     in saveElements updated (s\<lparr>elements := updated\<rparr>))"





text \<open>\<open>getCanvasDimensions\<close> (lines 194--203): width and height.\<close>

definition dims :: "aspect_ratio \<Rightarrow> real \<times> real" where
  "dims r = (case r of R16_9 \<Rightarrow> (800 * (16 / 9), 800) | R9_16 \<Rightarrow> (800 * (9 / 16), 800)
             | R3_4 \<Rightarrow> (800 * (3 / 4), 800) | R4_5 \<Rightarrow> (800 * (4 / 5), 800)
             | R1_1 \<Rightarrow> (800, 800))"










section \<open>Background controls\<close>









section \<open>Layer management and paint order\<close>

datatype z_move = Front | Back | Forward | Backward

text \<open>
  \<open>[...elements].sort((a, b) => a.style.zIndex - b.style.zIndex)\<close>: the sort of JavaScript is
  stable, as \<open>sort_key\<close> is. On a number \<open>z || 0\<close> is \<open>z\<close>, so the comparator of
  \<open>changeZIndex\<close> is the same. This list is the order in which \<open>generateCanvasData\<close>
  (line 806) paints the elements.
\<close>

abbreviation zOrder :: "element \<Rightarrow> real" where
  "zOrder el \<equiv> zIndex (el_style el)"

definition sortedByZ :: "element list \<Rightarrow> element list" where
  "sortedByZ els = sort_key zOrder els"

definition sortedElements :: "editor \<Rightarrow> element list" where
  "sortedElements s = sortedByZ (elements s)"

text \<open>\<open>sorted.findIndex(e => e.id === id)\<close>, \<open>-1\<close> when there is none.\<close>

fun findIndex :: "('a \<Rightarrow> bool) \<Rightarrow> 'a list \<Rightarrow> int" where
  "findIndex P [] = -1"
| "findIndex P (x # xs) = (if P x then 0 else (let i = findIndex P xs in if i < 0 then -1 else i + 1))"

text \<open>
  The \<open>idToZ\<close> object after the \<open>forEach\<close> of step 2. Reading a key that was never written,
  or that was written with \<open>undefined\<close>, gives \<open>None\<close>.
\<close>

definition normalizedZ :: "element list \<Rightarrow> (string \<rightharpoonup> real)" where
  "normalizedZ srt =
     fold (\<lambda>(i, el) m. m(el_id el \<mapsto> (real i + 1) * 10)) (enumerate 0 srt) Map.empty"

text \<open>
  \<open>changeZIndex\<close> (lines 320--366): the moves on \<open>idToZ\<close>, the callback of the final
  \<open>elements.map\<close>, and the handler.
\<close>

definition movedZ :: "z_move \<Rightarrow> string \<Rightarrow> element list \<Rightarrow> (string \<rightharpoonup> real)" where
  "movedZ mv i srt =
    (let idToZ = normalizedZ srt;
         currentZ = idToZ i;
         currentIndex = findIndex (\<lambda>e. el_id e = i) srt
     in case mv of
          Front \<Rightarrow> idToZ(i \<mapsto> (real (length srt) + 1) * 10)
        | Back \<Rightarrow> idToZ(i \<mapsto> 0)
        | Forward \<Rightarrow>
            if currentIndex < int (length srt) - 1
            then (let nextEl = srt ! nat (currentIndex + 1);
                      m = idToZ(i := idToZ (el_id nextEl))
                  in m(el_id nextEl := currentZ))
            else idToZ
        | Backward \<Rightarrow>
            if currentIndex > 0
            then (let prevEl = srt ! nat (currentIndex - 1);
                      m = idToZ(i := idToZ (el_id prevEl))
                  in m(el_id prevEl := currentZ))
            else idToZ)"

definition restack :: "(string \<rightharpoonup> real) \<Rightarrow> element \<Rightarrow> element" where
  "restack idToZ el =
     el\<lparr>el_style := (el_style el)\<lparr>zIndex := (case idToZ (el_id el) of Some z \<Rightarrow> z
                                               | None \<Rightarrow> zIndex (el_style el))\<rparr>\<rparr>"

definition changeZIndex :: "z_move \<Rightarrow> editor \<Rightarrow> editor" where
  "changeZIndex mv s =
    (case selectedIds s of
       [] \<Rightarrow> s
     | i # _ \<Rightarrow>
        (let idToZ = movedZ mv i (sortedByZ (elements s));
             updated = map (restack idToZ) (elements s)
         in saveElements updated (s\<lparr>elements := updated\<rparr>)))"

section \<open>Pointer gestures\<close>

record mouse_event =
  clientX :: real
  clientY :: real
  shiftKey :: bool

datatype action = Drag | Resize | Rotate



text \<open>
  \<open>handleMouseDown\<close> (lines 613--640). \<open>startStates\<close> is built key by key over the new
  selection.
\<close>

definition handleMouseDown :: "mouse_event \<Rightarrow> string \<Rightarrow> action \<Rightarrow> editor \<Rightarrow> editor" where
  "handleMouseDown e i act s =
    (if (case find (\<lambda>item. el_id item = i) (elements s) of
           Some el \<Rightarrow> truthy (el_locked el) | None \<Rightarrow> False) then s
     else if isEditingText s \<and> i \<in> set (selectedIds s) \<and> act = Drag then s
     else
       (let newSelectedIds =
              (if shiftKey e
               then (if i \<in> set (selectedIds s) then filter (\<lambda>sid. sid \<noteq> i) (selectedIds s)
                     else selectedIds s @ [i])
               else (if i \<notin> set (selectedIds s) then [i] else selectedIds s));
            startStates =
              fold (\<lambda>sid m. case find (\<lambda>el. el_id el = sid) (elements s) of
                               Some item \<Rightarrow> m(sid \<mapsto> item) | None \<Rightarrow> m)
                   newSelectedIds Map.empty
        in s\<lparr>selectedIds := newSelectedIds,
              potentialDrag := (if act = Drag then True else potentialDrag s),
              isResizing := (if act = Resize then True else isResizing s),
              isRotating := (if act = Rotate then True else isRotating s),
              dragStart := (clientX e, clientY e),
              elementsStart := startStates\<rparr>))"

text \<open>
  Arithmetic of \<open>handleMouseMove\<close>: \<open>Math.round\<close> rounds half up, \<open>%\<close> is the remainder
  of the division truncated towards zero, and \<open>Math.atan2\<close> is the angle of the point
  \<open>(x, y)\<close> in \<open>(-\<pi>, \<pi>]\<close>.
\<close>

definition jsRound :: "real \<Rightarrow> real" where
  "jsRound v = of_int \<lfloor>v + 1 / 2\<rfloor>"

definition jsRem :: "real \<Rightarrow> real \<Rightarrow> real" where
  "jsRem a b = a - b * (if a / b \<ge> 0 then of_int \<lfloor>a / b\<rfloor> else of_int \<lceil>a / b\<rceil>)"

definition atan2 :: "real \<Rightarrow> real \<Rightarrow> real" where
  "atan2 py px =
    (if px > 0 then arctan (py / px)
     else if px < 0 \<and> py \<ge> 0 then arctan (py / px) + pi
     else if px < 0 then arctan (py / px) - pi
     else if py > 0 then pi / 2
     else if py < 0 then - pi / 2
     else 0)"

text \<open>Lines 726--728: the angle of the rotate gesture, from the pointer and the centre.\<close>

definition rotationAngle :: "real \<times> real \<Rightarrow> real \<times> real \<Rightarrow> real" where
  "rotationAngle pointer centre =
    (let angle = atan2 (snd pointer - snd centre) (fst pointer - fst centre) * (180 / pi);
         snapAngle = angle + 90
     in if \<bar>jsRem snapAngle 45\<bar> < 5 then jsRound (snapAngle / 45) * 45 else snapAngle)"

text \<open>The callback of \<open>elements.map\<close> in the drag branch (lines 674--694).\<close>

definition dragElement :: "editor \<Rightarrow> real \<Rightarrow> real \<Rightarrow> element \<Rightarrow> element" where
  "dragElement s deltaX deltaY el =
    (if el_id el \<notin> set (selectedIds s) then el
     else case elementsStart s (el_id el) of
       None \<Rightarrow> el
     | Some start \<Rightarrow>
        (let newX = el_x start + deltaX;
             newY = el_y start + deltaY;
             centerX = fst (dims (aspectRatio s)) / 2;
             centerY = snd (dims (aspectRatio s)) / 2;
             snapX = (if length (selectedIds s) = 1 \<and> \<bar>(newX + el_width el / 2) - centerX\<bar> < 10
                      then centerX - el_width el / 2 else newX);
             snapY = (if length (selectedIds s) = 1 \<and> \<bar>(newY + el_height el / 2) - centerY\<bar> < 10
                      then centerY - el_height el / 2 else newY)
         in el\<lparr>el_x := snapX, el_y := snapY\<rparr>))"

text \<open>
  \<open>handleMouseMove\<close> (lines 642--733). The conditions read the state of the render the
  handler belongs to (\<open>s\<close>); \<open>setElements(updated)\<close> replaces the pending element list and
  \<open>setElements(prev => ...)\<close> maps over it. \<open>rect\<close> is the left and top of
  \<open>canvasRef.current?.getBoundingClientRect()\<close>.
\<close>

definition handleMouseMove :: "mouse_event \<Rightarrow> (real \<times> real) option \<Rightarrow> editor \<Rightarrow> editor" where
  "handleMouseMove e rect s =
    (if isDraggingBg s then
       s\<lparr>bgX := bd_initialX (bgDragStart s) + (clientX e - bd_x (bgDragStart s)) / zoomLevel s,
         bgY := bd_initialY (bgDragStart s) + (clientY e - bd_y (bgDragStart s)) / zoomLevel s\<rparr>
     else if isResizingBg s then
       s\<lparr>bgScale := max 0.5 (min 5 (bd_initialScale (bgDragStart s)
                                      + (bd_y (bgDragStart s) - clientY e) * 0.01))\<rparr>
     else if selectedIds s = [] then s
     else
       (let deltaX = (clientX e - fst (dragStart s)) / zoomLevel s;
            deltaY = (clientY e - snd (dragStart s)) / zoomLevel s;
            s1 = (if potentialDrag s \<and> (\<bar>deltaX\<bar> > 2 \<or> \<bar>deltaY\<bar> > 2)
                  then s\<lparr>isDragging := True, potentialDrag := False\<rparr> else s);
            s2 = (if isDragging s
                  then s1\<lparr>elements := map (dragElement s deltaX deltaY) (elements s)\<rparr> else s1);
            s3 = (if isResizing s \<and> length (selectedIds s) = 1 then
                    (let i = hd (selectedIds s) in
                     case (find (\<lambda>el. el_id el = i) (elements s), elementsStart s i) of
                       (Some el, Some start) \<Rightarrow>
                         (let newW = max 20 (el_width start + deltaX);
                              newH = max 20 (el_height start + deltaY);
                              newFontSize =
                                (if el_type el = Text \<or> el_type el = Cta
                                 then (let scaleRatio =
                                             newW / (if el_width start = 0 then 1 else el_width start);
                                           startSize = (case fontSize (el_style start) of
                                                          None \<Rightarrow> 16
                                                        | Some f \<Rightarrow> if f = 0 then 16 else f)
                                       in Some (jsRound (startSize * scaleRatio)))
                                 else fontSize (el_style start))
                          in s2\<lparr>elements := map (\<lambda>item. if el_id item = i
                                  then item\<lparr>el_width := newW, el_height := newH,
                                            el_style := (el_style item)\<lparr>fontSize := newFontSize\<rparr>\<rparr>
                                  else item) (elements s2)\<rparr>)
                     | _ \<Rightarrow> s2)
                  else s2);
            s4 = (if isRotating s \<and> length (selectedIds s) = 1 then
                    (let i = hd (selectedIds s) in
                     case (find (\<lambda>el. el_id el = i) (elements s), rect) of
                       (Some el, Some (rleft, rtop)) \<Rightarrow>
                         (let centerX = rleft + el_x el * zoomLevel s + el_width el * zoomLevel s / 2;
                              centerY = rtop + el_y el * zoomLevel s + el_height el * zoomLevel s / 2;
                              snapAngle = rotationAngle (clientX e, clientY e) (centerX, centerY)
                          in s3\<lparr>elements := map (\<lambda>item. if el_id item = i
                                  then item\<lparr>el_rotation := snapAngle\<rparr> else item) (elements s3)\<rparr>)
                     | _ \<Rightarrow> s3)
                  else s3)
        in s4))"

text \<open>
  \<open>handleMouseUp\<close> (lines 735--755). Both calls of \<open>saveToHistory\<close> compute the new history
  from the history of \<open>s\<close>; when both are made, the second \<open>setHistory\<close> overrides the first.
\<close>

definition handleMouseUp :: "editor \<Rightarrow> editor" where
  "handleMouseUp s =
    (let s1 = (if potentialDrag s \<and> length (selectedIds s) = 1 then
                 (case find (\<lambda>el. el_id el = hd (selectedIds s)) (elements s) of
                    Some el \<Rightarrow>
                      if (el_type el = Text \<or> el_type el = Cta) \<and> \<not> truthy (el_locked el)
                      then s\<lparr>isEditingText := True\<rparr> else s
                  | None \<Rightarrow> s)
               else if isDragging s \<or> isResizing s \<or> isRotating s
               then saveElements (elements s) s
               else s);
         s2 = (if isDraggingBg s \<or> isResizingBg s
               then s1\<lparr>history := history (saveElements (elements s) s),
                       historyIndex := historyIndex (saveElements (elements s) s)\<rparr>
               else s1)
     in s2\<lparr>isDragging := False, potentialDrag := False, isResizing := False,
           isRotating := False, isDraggingBg := False, isResizingBg := False\<rparr>)"

section \<open>The generation service (geminiService.ts)\<close>

text \<open>
  A JavaScript string is modelled as a \<open>string\<close> whose characters are its code units, all
  below 256. A thrown \<open>Error\<close> is a value carrying its message.
\<close>

datatype error = Error string

text \<open>What \<open>client.models.generateContent\<close> is called with, as far as the code sets it.\<close>

record gen_request =
  rq_model :: string
  rq_text :: string
  rq_aspectRatio :: "string option"

record inline_data =
  mimeType :: "string option"
  data :: "string option"

record part =
  p_text :: "string option"
  p_inlineData :: "inline_data option"

text \<open>
  The outcome of one call: the promise rejects, or it resolves to a response, of which the code
  reads \<open>response.candidates?.[0]?.content?.parts\<close> (image calls) or \<open>response.text\<close>
  (plan call).
\<close>

datatype image_response = ImageRejected string | ImageResolved "part list option"

datatype text_response = TextRejected string | TextResolved "string option"

text \<open>
  The surroundings of the module: the API key that \<open>resolveApiKey\<close> finds, and the remote
  service, which may answer the \<open>n\<close>-th request of the session in any way.
\<close>

record gemini =
  apiKey :: "string option"
  imageService :: "nat \<Rightarrow> gen_request \<Rightarrow> image_response"
  planService :: "nat \<Rightarrow> gen_request \<Rightarrow> text_response"

text \<open>The module state: whether \<open>ai\<close> is set, and the requests sent so far.\<close>

record session =
  ai :: bool
  requests :: "gen_request list"

text \<open>\<open>getClient\<close> (lines 15--25).\<close>

definition getClient :: "gemini \<Rightarrow> session \<Rightarrow> error + session" where
  "getClient g st =
    (if ai st then Inr st
     else case apiKey g of
       None \<Rightarrow> Inl (Error ''Missing Gemini API key. Set VITE_GEMINI_API_KEY or GEMINI_API_KEY in your environment.'')
     | Some k \<Rightarrow>
         if k = [] then Inl (Error ''Missing Gemini API key. Set VITE_GEMINI_API_KEY or GEMINI_API_KEY in your environment.'')
         else Inr (st\<lparr>ai := True\<rparr>))"

definition ratioName :: "aspect_ratio \<Rightarrow> string" where
  "ratioName r = (case r of R1_1 \<Rightarrow> ''1:1'' | R16_9 \<Rightarrow> ''16:9'' | R9_16 \<Rightarrow> ''9:16''
                  | R3_4 \<Rightarrow> ''3:4'' | R4_5 \<Rightarrow> ''4:5'')"

text \<open>A string in a condition is true when it is not empty.\<close>

definition nonEmpty :: "string option \<Rightarrow> bool" where
  "nonEmpty v = (case v of None \<Rightarrow> False | Some t \<Rightarrow> t \<noteq> [])"

definition hasImage :: "part \<Rightarrow> bool" where
  "hasImage p = (case p_inlineData p of None \<Rightarrow> False | Some d \<Rightarrow> nonEmpty (data d))"

definition dataUrl :: "part \<Rightarrow> string" where
  "dataUrl p = (case p_inlineData p of
      None \<Rightarrow> []
    | Some d \<Rightarrow> ''data:'' @ (if nonEmpty (mimeType d) then the (mimeType d) else ''image/png'')
                @ '';base64,'' @ nullish (data d) [])"

text \<open>The request that \<open>executeGen\<close> sends; the ratio 4:5 is sent as 3:4.\<close>

definition imageRequest :: "aspect_ratio \<Rightarrow> string \<Rightarrow> gen_request" where
  "imageRequest ratio promptText =
     \<lparr>rq_model = ''gemini-2.5-flash-image'', rq_text = promptText,
      rq_aspectRatio = Some (if ratio = R4_5 then ''3:4'' else ratioName ratio)\<rparr>"

text \<open>\<open>executeGen\<close> (lines 195--223), the helper inside \<open>generateImage\<close>.\<close>

definition executeGen ::
  "gemini \<Rightarrow> aspect_ratio \<Rightarrow> string \<Rightarrow> session \<Rightarrow> (error + string) \<times> session" where
  "executeGen g ratio promptText st =
    (case getClient g st of
       Inl e \<Rightarrow> (Inl e, st)
     | Inr st1 \<Rightarrow>
        (let rq = imageRequest ratio promptText;
             st2 = st1\<lparr>requests := requests st1 @ [rq]\<rparr>
         in case imageService g (length (requests st1)) rq of
              ImageRejected msg \<Rightarrow> (Inl (Error msg), st2)
            | ImageResolved None \<Rightarrow> (Inl (Error ''No content generated''), st2)
            | ImageResolved (Some outputParts) \<Rightarrow>
               (case find hasImage outputParts of
                  Some p \<Rightarrow> (Inr (dataUrl p), st2)
                | None \<Rightarrow>
                   (case find (\<lambda>p. nonEmpty (p_text p)) outputParts of
                      Some textPart \<Rightarrow> (Inl (Error (the (p_text textPart))), st2)
                    | None \<Rightarrow> (Inl (Error ''No image data found''), st2)))))"

text \<open>\<open>toLowerCase\<close> on the letters A to Z, and \<open>String.prototype.includes\<close>.\<close>

definition lowerChar :: "char \<Rightarrow> char" where
  "lowerChar c = (let n = (of_char c :: nat) in if 65 \<le> n \<and> n \<le> 90 then char_of (n + 32) else c)"

definition toLowerCase :: "string \<Rightarrow> string" where
  "toLowerCase t = map lowerChar t"

fun includesStr :: "string \<Rightarrow> string \<Rightarrow> bool" where
  "includesStr [] needle = (needle = [])"
| "includesStr (c # cs) needle = (take (length needle) (c # cs) = needle \<or> includesStr cs needle)"

definition strictPrompt :: "string \<Rightarrow> string" where
  "strictPrompt prompt = ''Professional photography, '' @ prompt @
     ''. Cinematic lighting, 8k resolution, high quality, highly detailed, text-free background.''"

definition fallbackPrompt :: "string \<Rightarrow> string" where
  "fallbackPrompt prompt = ''Artistic illustration style, '' @ prompt @
     ''. Soft colors, minimalist, abstract, high quality, no text.''"

text \<open>
  The error that \<open>generateImage\<close> throws when both attempts failed (the \<open>GenerationFailed\<close>
  of the specification).
\<close>

definition GenerationFailed :: error where
  "GenerationFailed = Error ''Model refused to generate image. Try a simpler prompt.''"

text \<open>\<open>generateImage\<close> (lines 186--243).\<close>

definition generateImage ::
  "gemini \<Rightarrow> string \<Rightarrow> aspect_ratio \<Rightarrow> string list \<Rightarrow> session \<Rightarrow> (error + string) \<times> session" where
  "generateImage g prompt ratio referenceImages st =
    (if prompt = [] then (Inr [], st)
     else if includesStr (toLowerCase prompt) ''user provided background''
       then (Inr (case referenceImages of [] \<Rightarrow> [] | r # _ \<Rightarrow> r), st)
     else case executeGen g ratio (strictPrompt prompt) st of
            (Inr url, st1) \<Rightarrow> (Inr url, st1)
          | (Inl err, st1) \<Rightarrow>
             (case executeGen g ratio (fallbackPrompt prompt) st1 of
                (Inr url, st2) \<Rightarrow> (Inr url, st2)
              | (Inl retryError, st2) \<Rightarrow> (Inl GenerationFailed, st2)))"

subsection \<open>The campaign plan\<close>

text \<open>The value that \<open>JSON.parse\<close> returns. Reading a key of an object takes its last member.\<close>

datatype json =
  JNull | JBoolean bool | JNumber real | JString string
  | JArray "json list" | JObject "(string \<times> json) list"

definition member :: "json \<Rightarrow> string \<Rightarrow> json option" where
  "member v k = (case v of JObject ms \<Rightarrow> map_of (rev ms) k | _ \<Rightarrow> None)"

text \<open>
  \<open>JSON.parse\<close> is a built-in; the functions of this module take it as the parameter
  \<open>parse\<close>, \<open>None\<close> standing for a thrown \<open>SyntaxError\<close>. To run a concrete response,
  \<open>jsonParse\<close> below follows the JSON grammar on texts whose four-digit hexadecimal escapes
  stay below 0100 (it gives \<open>None\<close> on the others, which are outside the model). The fuel of the mutual
  recursion is the length of the text.
\<close>

definition isWs :: "char \<Rightarrow> bool" where
  "isWs c = (c = CHR 0x09 \<or> c = CHR 0x0A \<or> c = CHR 0x0D \<or> c = CHR 0x20)"

definition skipWs :: "string \<Rightarrow> string" where
  "skipWs t = dropWhile isWs t"

definition isDigit :: "char \<Rightarrow> bool" where
  "isDigit c = (48 \<le> (of_char c :: nat) \<and> (of_char c :: nat) \<le> 57)"

definition digitsVal :: "string \<Rightarrow> nat" where
  "digitsVal ds = foldl (\<lambda>a c. 10 * a + ((of_char c :: nat) - 48)) 0 ds"

definition hexVal :: "char \<Rightarrow> nat option" where
  "hexVal c = (let n = (of_char c :: nat) in
     if 48 \<le> n \<and> n \<le> 57 then Some (n - 48)
     else if 65 \<le> n \<and> n \<le> 70 then Some (n - 55)
     else if 97 \<le> n \<and> n \<le> 102 then Some (n - 87)
     else None)"

definition hex4 :: "string \<Rightarrow> char option" where
  "hex4 t = (case map hexVal t of
      [Some a, Some b, Some c, Some d] \<Rightarrow>
        if a = 0 \<and> b = 0 then Some (char_of (16 * c + d)) else None
    | _ \<Rightarrow> None)"

definition unescape :: "char \<Rightarrow> char option" where
  "unescape e =
    (if e = CHR 0x22 then Some (CHR 0x22)
     else if e = CHR 0x5C then Some (CHR 0x5C)
     else if e = CHR ''/'' then Some (CHR ''/'')
     else if e = CHR ''b'' then Some (CHR 0x08)
     else if e = CHR ''f'' then Some (CHR 0x0C)
     else if e = CHR ''n'' then Some (CHR 0x0A)
     else if e = CHR ''r'' then Some (CHR 0x0D)
     else if e = CHR ''t'' then Some (CHR 0x09)
     else None)"

definition consOpt :: "'a \<Rightarrow> ('a list \<times> 'b) option \<Rightarrow> ('a list \<times> 'b) option" where
  "consOpt a r = (case r of None \<Rightarrow> None | Some (as, rest) \<Rightarrow> Some (a # as, rest))"

text \<open>The characters of a string literal after its opening quote, and the rest of the text.\<close>

fun parseChars :: "string \<Rightarrow> (string \<times> string) option" where
  "parseChars [] = None"
| "parseChars [c] = (if c = CHR 0x22 then Some ([], []) else None)"
| "parseChars (c # e # r) =
    (if c = CHR 0x22 then Some ([], e # r)
     else if c = CHR 0x5C then
       (if e = CHR ''u'' then
          (case hex4 (take 4 r) of None \<Rightarrow> None | Some ch \<Rightarrow> consOpt ch (parseChars (drop 4 r)))
        else (case unescape e of None \<Rightarrow> None | Some ch \<Rightarrow> consOpt ch (parseChars r)))
     else if (of_char c :: nat) < 32 then None
     else consOpt c (parseChars (e # r)))"

definition parseNumber :: "string \<Rightarrow> (real \<times> string) option" where
  "parseNumber t =
    (let neg = (t \<noteq> [] \<and> hd t = CHR ''-'');
         t1 = (if neg then tl t else t);
         ints = takeWhile isDigit t1;
         t2 = dropWhile isDigit t1;
         hasFrac = (t2 \<noteq> [] \<and> hd t2 = CHR ''.'');
         fracs = (if hasFrac then takeWhile isDigit (tl t2) else []);
         t3 = (if hasFrac then dropWhile isDigit (tl t2) else t2);
         hasExp = (t3 \<noteq> [] \<and> (hd t3 = CHR ''e'' \<or> hd t3 = CHR ''E''));
         t4 = (if hasExp then tl t3 else t3);
         expNeg = (hasExp \<and> t4 \<noteq> [] \<and> hd t4 = CHR ''-'');
         t5 = (if hasExp \<and> t4 \<noteq> [] \<and> (hd t4 = CHR ''-'' \<or> hd t4 = CHR ''+'') then tl t4 else t4);
         exps = (if hasExp then takeWhile isDigit t5 else []);
         t6 = (if hasExp then dropWhile isDigit t5 else t3);
         mantissa = real (digitsVal (ints @ fracs)) / 10 ^ length fracs;
         scaled = (if expNeg then mantissa / 10 ^ digitsVal exps else mantissa * 10 ^ digitsVal exps)
     in if ints = [] \<or> (length ints > 1 \<and> hd ints = CHR ''0'') then None
        else if hasFrac \<and> fracs = [] then None
        else if hasExp \<and> exps = [] then None
        else Some (if neg then - scaled else scaled, t6))"

fun parseValue :: "nat \<Rightarrow> string \<Rightarrow> (json \<times> string) option"
  and parseElements :: "nat \<Rightarrow> string \<Rightarrow> (json list \<times> string) option"
  and parseMembers :: "nat \<Rightarrow> string \<Rightarrow> ((string \<times> json) list \<times> string) option"
where
  "parseValue 0 t = None"
| "parseValue (Suc n) t =
    (if t = [] then None
     else if hd t = CHR ''{'' then
       (let r = skipWs (tl t) in
        if r \<noteq> [] \<and> hd r = CHR ''}'' then Some (JObject [], tl r)
        else (case parseMembers n r of None \<Rightarrow> None | Some (ms, r') \<Rightarrow> Some (JObject ms, r')))
     else if hd t = CHR ''['' then
       (let r = skipWs (tl t) in
        if r \<noteq> [] \<and> hd r = CHR '']'' then Some (JArray [], tl r)
        else (case parseElements n r of None \<Rightarrow> None | Some (vs, r') \<Rightarrow> Some (JArray vs, r')))
     else if hd t = CHR 0x22 then
       (case parseChars (tl t) of None \<Rightarrow> None | Some (str, r) \<Rightarrow> Some (JString str, r))
     else if take 4 t = ''true'' then Some (JBoolean True, drop 4 t)
     else if take 5 t = ''false'' then Some (JBoolean False, drop 5 t)
     else if take 4 t = ''null'' then Some (JNull, drop 4 t)
     else (case parseNumber t of None \<Rightarrow> None | Some (v, r) \<Rightarrow> Some (JNumber v, r)))"
| "parseElements 0 t = None"
| "parseElements (Suc n) t =
    (case parseValue n t of
       None \<Rightarrow> None
     | Some (v, r) \<Rightarrow>
        (let r1 = skipWs r in
         if r1 = [] then None
         else if hd r1 = CHR '','' then consOpt v (parseElements n (skipWs (tl r1)))
         else if hd r1 = CHR '']'' then Some ([v], tl r1)
         else None))"
| "parseMembers 0 t = None"
| "parseMembers (Suc n) t =
    (if t = [] \<or> hd t \<noteq> CHR 0x22 then None
     else case parseChars (tl t) of
       None \<Rightarrow> None
     | Some (k, r) \<Rightarrow>
        (let r1 = skipWs r in
         if r1 = [] \<or> hd r1 \<noteq> CHR '':'' then None
         else case parseValue n (skipWs (tl r1)) of
           None \<Rightarrow> None
         | Some (v, r2) \<Rightarrow>
            (let r3 = skipWs r2 in
             if r3 = [] then None
             else if hd r3 = CHR '','' then consOpt (k, v) (parseMembers n (skipWs (tl r3)))
             else if hd r3 = CHR ''}'' then Some ([(k, v)], tl r3)
             else None)))"

definition jsonParse :: "string \<Rightarrow> json option" where
  "jsonParse t =
    (case parseValue (length t) (skipWs t) of
       None \<Rightarrow> None
     | Some (v, r) \<Rightarrow> if skipWs r = [] then Some v else None)"

text \<open>
  The interface \<open>BannerPlan\<close> (lines 38--58), as a predicate on the parsed value.
\<close>

definition isString :: "json option \<Rightarrow> bool" where
  "isString v = (case v of Some (JString _) \<Rightarrow> True | _ \<Rightarrow> False)"

definition isStringArray :: "json option \<Rightarrow> bool" where
  "isStringArray v = (case v of Some (JArray vs) \<Rightarrow> list_all (\<lambda>e. isString (Some e)) vs | _ \<Rightarrow> False)"

definition isBanner :: "string \<Rightarrow> string \<Rightarrow> json option \<Rightarrow> bool" where
  "isBanner k1 k2 v = (case v of
      Some (JObject ms) \<Rightarrow>
        isString (member (JObject ms) k1) \<and> isString (member (JObject ms) k2) \<and>
        isString (member (JObject ms) ''image_prompt'') \<and>
        isString (member (JObject ms) ''description'') \<and> isString (member (JObject ms) ''cta'')
    | _ \<Rightarrow> False)"

definition isBannerPlan :: "json \<Rightarrow> bool" where
  "isBannerPlan v =
    (isBanner ''headline'' ''subheadline'' (member v ''main_banner'') \<and>
     (case member v ''additional_banners'' of
        Some (JArray bs) \<Rightarrow> list_all (\<lambda>b. isBanner ''title'' ''subtitle'' (Some b)) bs
      | _ \<Rightarrow> False) \<and>
     (case member v ''seo'' of
        Some (JObject ms) \<Rightarrow>
          isString (member (JObject ms) ''caption'') \<and>
          isStringArray (member (JObject ms) ''hashtags'') \<and>
          isStringArray (member (JObject ms) ''keywords'')
      | _ \<Rightarrow> False))"

text \<open>
  \<open>text.replace(/```json\n?|\n?```/g, "")\<close>: at each position the first alternative is tried
  before the second, and the search goes on after a match.
\<close>

function stripFences :: "string \<Rightarrow> string" where
  "stripFences t =
    (if t = [] then []
     else if take 7 t = ''```json'' then
       (let r = drop 7 t in stripFences (if r \<noteq> [] \<and> hd r = CHR 0x0A then tl r else r))
     else if take 4 t = CHR 0x0A # ''```'' then stripFences (drop 4 t)
     else if take 3 t = ''```'' then stripFences (drop 3 t)
     else hd t # stripFences (tl t))"
  by pat_completeness auto
termination
  by (relation "measure length") (auto simp: Let_def)

declare stripFences.simps [simp del]

text \<open>\<open>trim\<close>: the white space and line terminators below 0100.\<close>

definition isTrimmed :: "char \<Rightarrow> bool" where
  "isTrimmed c = ((of_char c :: nat) \<in> {9, 10, 11, 12, 13, 32, 160})"

definition trim :: "string \<Rightarrow> string" where
  "trim t = rev (dropWhile isTrimmed (rev (dropWhile isTrimmed t)))"

text \<open>Lines 171--182 of \<open>generateBannerPlan\<close>: from \<open>response.text\<close> to the plan or the error.\<close>

definition planFromText :: "(string \<Rightarrow> json option) \<Rightarrow> string option \<Rightarrow> error + json" where
  "planFromText parse responseText =
    (if \<not> nonEmpty responseText then Inl (Error ''No text returned from Gemini'')
     else case parse (trim (stripFences (the responseText))) of
            None \<Rightarrow> Inl (Error ''Invalid JSON response from AI'')
          | Some plan \<Rightarrow> Inr plan)"

record banner_request =
  userPrompt :: string
  br_aspectRatio :: aspect_ratio
  hasBackgroundImage :: "bool option"
  hasAssetImage :: "bool option"

definition showFlag :: "bool option \<Rightarrow> string" where
  "showFlag b = (case b of None \<Rightarrow> ''undefined'' | Some True \<Rightarrow> ''true'' | Some False \<Rightarrow> ''false'')"

definition planPrompt :: "banner_request \<Rightarrow> string" where
  "planPrompt request =
     CHR 0x0A # ''    User Prompt: '' @ userPrompt request @
     CHR 0x0A # ''    Aspect Ratio: '' @ ratioName (br_aspectRatio request) @
     CHR 0x0A # ''    Has Background Upload: '' @ showFlag (hasBackgroundImage request) @
     CHR 0x0A # ''    Has Asset Upload: '' @ showFlag (hasAssetImage request) @
     CHR 0x0A # ''  ''"

definition planRequest :: "banner_request \<Rightarrow> gen_request" where
  "planRequest request =
     \<lparr>rq_model = ''gemini-2.5-flash'', rq_text = planPrompt request, rq_aspectRatio = None\<rparr>"

text \<open>
  \<open>generateBannerPlan\<close> (lines 111--182). The constant parts of the request (system
  instruction, response schema, temperature) are not written out.
\<close>

definition generateBannerPlan ::
  "(string \<Rightarrow> json option) \<Rightarrow> gemini \<Rightarrow> banner_request \<Rightarrow> session \<Rightarrow> (error + json) \<times> session" where
  "generateBannerPlan parse g request st =
    (case getClient g st of
       Inl e \<Rightarrow> (Inl e, st)
     | Inr st1 \<Rightarrow>
        (let rq = planRequest request;
             st2 = st1\<lparr>requests := requests st1 @ [rq]\<rparr>
         in case planService g (length (requests st1)) rq of
              TextRejected msg \<Rightarrow> (Inl (Error msg), st2)
            | TextResolved responseText \<Rightarrow> (planFromText parse responseText, st2)))"

section \<open>Handlers that await the service\<close>



section \<open>Concrete inputs\<close>

text \<open>
  The values on which the theorems below run the model: a shape as \<open>addElement('shape')\<close>
  makes it on a square page (with a given id and \<open>zIndex\<close>), and an editor opened on two
  shapes.
\<close>

definition bareStyle :: "real \<Rightarrow> style" where
  "bareStyle z =
     \<lparr>fontSize = None, fontFamily = None, fontWeight = None, fontStyle = None,
      textDecoration = None, lineHeight = None, letterSpacing = None, color = None,
      gradient = None, backgroundColor = None, textAlign = None, borderRadius = None,
      padding = None, zIndex = z, opacity = Some 1, borderWidth = None, borderColor = None,
      style_extra = []\<rparr>"

definition shapeEl :: "string \<Rightarrow> real \<Rightarrow> element" where
  "shapeEl i z =
     \<lparr>el_id = i, el_type = Shape, el_content = ''#8b5cf6'', el_x = 300, el_y = 300,
      el_width = 200, el_height = 200, el_rotation = 0, el_scaleX = Some 1, el_scaleY = Some 1,
      el_groupId = None, el_locked = None,
      el_style = (bareStyle z)\<lparr>backgroundColor := Some ''#8b5cf6''\<rparr>, el_extra = []\<rparr>"

definition twoShapes :: editor where
  "twoShapes = initialEditor ''bg.png'' [shapeEl ''a'' 10, shapeEl ''b'' 20] None R1_1"

text \<open>The scene of an editor without elements whose background image was panned to \<open>px\<close>.\<close>

definition pannedTo :: "real \<Rightarrow> snapshot" where
  "pannedTo px = \<lparr>h_elements = [], h_bgValue = ''bg.png'', h_bgType = BgImage,
      h_bgOpacity = 1, h_bgScale = 1, h_bgX = px, h_bgY = 0\<rparr>"

text \<open>
  A pointer event, and the trace that locks the shape \<open>a\<close> (click, lock button) and then
  drags the shape \<open>b\<close> with the shift key held.
\<close>

definition pointer :: "real \<Rightarrow> real \<Rightarrow> bool \<Rightarrow> mouse_event" where
  "pointer px py shift = \<lparr>clientX = px, clientY = py, shiftKey = shift\<rparr>"

definition lockedA :: editor where
  "lockedA = toggleLock (handleMouseUp (handleMouseDown (pointer 100 100 False) ''a'' Drag twoShapes))"



definition draggedWithLocked :: editor where
  "draggedWithLocked =
     handleMouseUp
       (handleMouseMove (pointer 160 100 True) (Some (0, 0))
         (handleMouseMove (pointer 130 100 True) (Some (0, 0))
           (handleMouseDown (pointer 100 100 True) ''b'' Drag lockedA)))"

text \<open>
  A service that refuses every image request with a text part, and one that answers every plan
  request with a given text; a session that has sent nothing yet.
\<close>

definition refusing :: gemini where
  "refusing = \<lparr>apiKey = Some ''key'',
     imageService = (\<lambda>n rq. ImageResolved (Some [\<lparr>p_text = Some ''I cannot generate that image.'',
                                                   p_inlineData = None\<rparr>])),
     planService = (\<lambda>n rq. TextResolved None)\<rparr>"

definition answering :: "string \<Rightarrow> gemini" where
  "answering t = \<lparr>apiKey = Some ''key'',
     imageService = (\<lambda>n rq. ImageResolved None),
     planService = (\<lambda>n rq. TextResolved (Some t))\<rparr>"

definition freshSession :: session where
  "freshSession = \<lparr>ai = False, requests = []\<rparr>"

text \<open>A fenced response that is JSON and has no \<open>additional_banners\<close>.\<close>

definition planWithoutSlides :: string where
  \<open>planWithoutSlides = ''```json'' @ [CHR 0x0A] @
     ''{"main_banner":{"headline":"H","subheadline":"S","image_prompt":"P","description":"D","cta":"C"},'' @
     ''"seo":{"caption":"c","hashtags":[],"keywords":[]}}'' @ [CHR 0x0A] @ ''```''\<close>

definition bannerRequest :: banner_request where
  "bannerRequest = \<lparr>userPrompt = ''Summer sale'', br_aspectRatio = R1_1,
     hasBackgroundImage = Some False, hasAssetImage = Some False\<rparr>"




text \<open>The editor on two shapes with the lower one, or the upper one, selected.\<close>

definition lowerSelected :: editor where
  "lowerSelected = twoShapes\<lparr>selectedIds := [''a'']\<rparr>"

definition upperSelected :: editor where
  "upperSelected = twoShapes\<lparr>selectedIds := [''b'']\<rparr>"

section \<open>Undo after committed edits\<close>

lemma commitEdit_grow:
  assumes "historyIndex s + 1 = length (history s)" "length (history s) < 20"
  shows "history (commitEdit e s) = history s @ [e]"
    and "historyIndex (commitEdit e s) = length (history s)"
  using assms by (cases e; simp add: commitEdit_def saveToHistory_def restore_def Let_def)+

lemma fold_commitEdit_grow:
  "historyIndex s + 1 = length (history s) \<Longrightarrow> length (history s) + length es \<le> 20 \<Longrightarrow>
   history (fold commitEdit es s) = history s @ es \<and>
   historyIndex (fold commitEdit es s) + 1 = length (history s) + length es"
proof (induction es arbitrary: s)
  case Nil
  then show ?case by simp
next
  case (Cons e es)
  have g: "history (commitEdit e s) = history s @ [e]"
    "historyIndex (commitEdit e s) = length (history s)"
    using Cons.prems by (simp_all add: commitEdit_grow)
  have "history (fold commitEdit es (commitEdit e s)) = history (commitEdit e s) @ es \<and>
        historyIndex (fold commitEdit es (commitEdit e s)) + 1
          = length (history (commitEdit e s)) + length es"
    by (rule Cons.IH) (use Cons.prems g in simp_all)
  then show ?case using g by simp
qed

lemma undo_funpow:
  "historyIndex s < length (history s) \<Longrightarrow> k \<le> historyIndex s \<Longrightarrow> 0 < k \<Longrightarrow>
   (undo ^^ k) s =
     restore (history s ! (historyIndex s - k)) (s\<lparr>historyIndex := historyIndex s - k\<rparr>)"
proof (induction k)
  case 0
  then show ?case by simp
next
  case (Suc k)
  show ?case
  proof (cases "k = 0")
    case True
    then show ?thesis using Suc.prems by (simp add: undo_def)
  next
    case False
    then have "(undo ^^ k) s =
        restore (history s ! (historyIndex s - k)) (s\<lparr>historyIndex := historyIndex s - k\<rparr>)"
      using Suc by simp
    then have "(undo ^^ Suc k) s =
        undo (restore (history s ! (historyIndex s - k)) (s\<lparr>historyIndex := historyIndex s - k\<rparr>))"
      by simp
    also have "\<dots> =
        restore (history s ! (historyIndex s - Suc k)) (s\<lparr>historyIndex := historyIndex s - Suc k\<rparr>)"
      using Suc.prems by (simp add: undo_def restore_def)
    finally show ?thesis .
  qed
qed

lemma scene_restore: "scene (restore e s) = e"
  by (cases e) (simp add: scene_def restore_def)

text \<open>The handlers are committed edits: \<open>updateSelected\<close>, for one.\<close>

lemma updateSelected_is_commit:
  "updateSelected updates s = commitEdit (scene (updateSelected updates s)) s"
  by (simp add: updateSelected_def commitEdit_def saveElements_def scene_def restore_def Let_def
      saveToHistory_def)

text \<open>
  Claim C1, as the code has it. The editor opens with its initial snapshot as the only history
  entry, so with the cap of 20 entries at most 19 committed edits can be undone back to it:
  for every initial scene and every sequence of \<open>N \<le> 19\<close> committed edits, \<open>N\<close> calls
  of \<open>undo\<close> bring elements and background back to the initial snapshot. (For \<open>N = 0\<close>
  this needs the initial elements to carry \<open>scaleX\<close> and \<open>scaleY\<close> already, since the
  editor fills them in on opening.)
\<close>

theorem undo_restores_initial:
  assumes "length es \<le> 19"
    and "es \<noteq> [] \<or> (\<forall>el \<in> set initialElements. el_scaleX el \<noteq> None \<and> el_scaleY el \<noteq> None)"
  shows "scene ((undo ^^ length es) (fold commitEdit es (initialEditor bg initialElements ibs ratio)))
         = hd (history (initialEditor bg initialElements ibs ratio))"
proof (cases "es = []")
  case True
  with assms(2) have "map defaultScale initialElements = initialElements"
    by (intro map_idI) (auto simp: defaultScale_def nullish_def)
  with True show ?thesis by (simp add: initialEditor_def scene_def Let_def)
next
  case False
  let ?ini = "initialEditor bg initialElements ibs ratio"
  let ?fin = "fold commitEdit es ?ini"
  have h0: "length (history ?ini) = 1" "historyIndex ?ini = 0"
    by (simp_all add: initialEditor_def Let_def)
  have f: "history ?fin = history ?ini @ es" "historyIndex ?fin = length es"
    using fold_commitEdit_grow[of ?ini es] h0 assms(1) by simp_all
  have "(undo ^^ length es) ?fin =
      restore (history ?fin ! (historyIndex ?fin - length es))
        (?fin\<lparr>historyIndex := historyIndex ?fin - length es\<rparr>)"
    by (rule undo_funpow) (use f h0 False in simp_all)
  then have "scene ((undo ^^ length es) ?fin) = history ?fin ! 0"
    using f by (simp add: scene_restore)
  also have "\<dots> = hd (history ?ini)"
    using f h0 by (cases "history ?ini") simp_all
  finally show ?thesis .
qed

text \<open>The theorem at two background pans on an editor without elements.\<close>

theorem undo_restores_initial_witness:
  "length [pannedTo 1, pannedTo 2] \<le> 19 \<and> [pannedTo 1, pannedTo 2] \<noteq> [] \<and>
   scene ((undo ^^ 2) (fold commitEdit [pannedTo 1, pannedTo 2] (initialEditor ''bg.png'' [] None R1_1)))
     = pannedTo 0"
proof -
  have "hd (history (initialEditor ''bg.png'' [] None R1_1)) = pannedTo 0"
    by (simp add: initialEditor_def pannedTo_def Let_def)
  then show ?thesis
    using undo_restores_initial[of "[pannedTo 1, pannedTo 2]" "[]" "''bg.png''" None R1_1]
    by (simp add: numeral_2_eq_2)
qed

text \<open>
  Claim C1 as stated fails at \<open>N = 20\<close>: the twentieth edit evicts the initial snapshot, and
  twenty calls of \<open>undo\<close> end at the scene of the first edit.
\<close>

theorem undo_twenty_edits_counterexample:
  "distinct (map pannedTo [1, 2, 3, 4, 5, 6, 7, 8, 9, 10, 11, 12, 13, 14, 15, 16, 17, 18, 19, 20]) \<and>
   scene ((undo ^^ 20)
     (fold commitEdit
       (map pannedTo [1, 2, 3, 4, 5, 6, 7, 8, 9, 10, 11, 12, 13, 14, 15, 16, 17, 18, 19, 20])
       (initialEditor ''bg.png'' [] None R1_1))) = pannedTo 1 \<and>
   hd (history (initialEditor ''bg.png'' [] None R1_1)) = pannedTo 0 \<and>
   pannedTo 1 \<noteq> pannedTo 0"
  by (simp add: numeral_eq_Suc pannedTo_def initialEditor_def commitEdit_def saveToHistory_def
      restore_def undo_def scene_def Let_def)

section \<open>History entries of the handlers\<close>




lemma saveToHistory_scene [simp]:
  "elements (saveToHistory els bg ty op sc px py s) = elements s"
  "bgValue (saveToHistory els bg ty op sc px py s) = bgValue s"
  "bgType (saveToHistory els bg ty op sc px py s) = bgType s"
  "bgOpacity (saveToHistory els bg ty op sc px py s) = bgOpacity s"
  "bgScale (saveToHistory els bg ty op sc px py s) = bgScale s"
  "bgX (saveToHistory els bg ty op sc px py s) = bgX s"
  "bgY (saveToHistory els bg ty op sc px py s) = bgY s"
  "selectedIds (saveToHistory els bg ty op sc px py s) = selectedIds s"
  by (simp_all add: saveToHistory_def Let_def)

lemma saveElements_scene [simp]:
  "elements (saveElements els s) = elements s" "bgValue (saveElements els s) = bgValue s"
  "bgType (saveElements els s) = bgType s" "bgOpacity (saveElements els s) = bgOpacity s"
  "bgScale (saveElements els s) = bgScale s" "bgX (saveElements els s) = bgX s"
  "bgY (saveElements els s) = bgY s" "selectedIds (saveElements els s) = selectedIds s"
  by (simp_all add: saveElements_def)


lemma withNewEntry_cong [simp]:
  "withNewEntry (s\<lparr>elements := els\<rparr>) = withNewEntry s"
  "withNewEntry (s\<lparr>elements := els, selectedIds := ids\<rparr>) = withNewEntry s"
  by (simp_all add: withNewEntry_def fun_eq_iff)



lemma last_withNewEntry [simp]: "last (withNewEntry s e) = e"
  by (simp add: withNewEntry_def)






lemma clickedA:
  "elements (handleMouseUp (handleMouseDown (pointer 100 100 False) ''a'' Drag twoShapes))
     = [shapeEl ''a'' 10, shapeEl ''b'' 20]"
  "selectedIds (handleMouseUp (handleMouseDown (pointer 100 100 False) ''a'' Drag twoShapes)) = [''a'']"
  "length (history (handleMouseUp (handleMouseDown (pointer 100 100 False) ''a'' Drag twoShapes))) = 1"
  "historyIndex (handleMouseUp (handleMouseDown (pointer 100 100 False) ''a'' Drag twoShapes)) = 0"
  by (simp_all add: handleMouseUp_def handleMouseDown_def twoShapes_def initialEditor_def
      pointer_def shapeEl_def bareStyle_def defaultScale_def nullish_def truthy_def Let_def)

lemma els_lockedA:
  "elements lockedA = [(shapeEl ''a'' 10)\<lparr>el_locked := Some True\<rparr>, shapeEl ''b'' 20]"
  and sel_lockedA: "selectedIds lockedA = [''a'']"
  by (simp_all add: lockedA_def toggleLock_def Let_def clickedA shapeEl_def truthy_def)






section \<open>Routing of a patch\<close>












section \<open>Duplicating the selection\<close>






section \<open>Bringing an element to the front\<close>

lemma fold_rank:
  assumes "distinct (map el_id xs)"
  shows "(\<forall>j < length xs. fold (\<lambda>(i, el) m. m(el_id el \<mapsto> (real i + 1) * 10)) (enumerate n xs) m
              (el_id (xs ! j)) = Some ((real (n + j) + 1) * 10))
       \<and> (\<forall>k. k \<notin> el_id ` set xs \<longrightarrow>
              fold (\<lambda>(i, el) m. m(el_id el \<mapsto> (real i + 1) * 10)) (enumerate n xs) m k = m k)"
  using assms
proof (induction xs arbitrary: n m)
  case Nil
  then show ?case by simp
next
  case (Cons x xs)
  let ?f = "\<lambda>(i, el) m. m(el_id el \<mapsto> (real i + 1) * 10)"
  let ?m = "m(el_id x \<mapsto> (real n + 1) * 10)"
  have d: "distinct (map el_id xs)" and nx: "el_id x \<notin> el_id ` set xs"
    using Cons.prems by auto
  have ih: "(\<forall>j < length xs. fold ?f (enumerate (Suc n) xs) ?m (el_id (xs ! j)) = Some ((real (Suc n + j) + 1) * 10))
       \<and> (\<forall>k. k \<notin> el_id ` set xs \<longrightarrow> fold ?f (enumerate (Suc n) xs) ?m k = ?m k)"
    by (rule Cons.IH[OF d])
  have step: "fold ?f (enumerate n (x # xs)) m = fold ?f (enumerate (Suc n) xs) ?m"
    by simp
  show ?case
  proof (intro conjI allI impI)
    fix j assume j: "j < length (x # xs)"
    show "fold ?f (enumerate n (x # xs)) m (el_id ((x # xs) ! j)) = Some ((real (n + j) + 1) * 10)"
    proof (cases j)
      case 0
      then show ?thesis using ih nx unfolding step by simp
    next
      case (Suc j')
      then have "j' < length xs" using j by simp
      then show ?thesis using ih Suc unfolding step by simp
    qed
  next
    fix k assume "k \<notin> el_id ` set (x # xs)"
    then show "fold ?f (enumerate n (x # xs)) m k = m k"
      using ih unfolding step by simp
  qed
qed

lemma normalizedZ_rank:
  "distinct (map el_id xs) \<Longrightarrow> j < length xs \<Longrightarrow> normalizedZ xs (el_id (xs ! j)) = Some ((real j + 1) * 10)"
  using fold_rank[of xs 0 Map.empty] by (simp add: normalizedZ_def)

lemma distinct_ids_sortedByZ:
  "distinct (map el_id (sortedByZ els)) = distinct (map el_id els)"
  by (rule mset_eq_imp_distinct_iff) (simp add: sortedByZ_def)

lemma set_sortedByZ: "set (sortedByZ els) = set els"
  by (simp add: sortedByZ_def)

lemma length_sortedByZ [simp]: "length (sortedByZ els) = length els"
  by (simp add: sortedByZ_def)

lemma restack_id [simp]: "el_id (restack m el) = el_id el"
  by (simp add: restack_def)

lemma zOrder_restack: "zOrder (restack m el) = (case m (el_id el) of Some z \<Rightarrow> z | None \<Rightarrow> zOrder el)"
  by (simp add: restack_def)

lemma sorted_last_max:
  assumes "sorted (map f ys)" "y \<in> set ys"
  shows "f y \<le> f (last ys)"
proof -
  from assms(2) obtain i where i: "i < length ys" "ys ! i = y"
    by (auto simp: in_set_conv_nth)
  then have ne: "ys \<noteq> []" by auto
  have "map f ys ! i \<le> map f ys ! (length ys - 1)"
    by (rule sorted_nth_mono[OF assms(1)]) (use i in auto)
  then show ?thesis using i ne by (simp add: last_conv_nth)
qed

lemma findIndex_nth:
  "distinct (map el_id xs) \<Longrightarrow> j < length xs \<Longrightarrow>
   findIndex (\<lambda>e. el_id e = el_id (xs ! j)) xs = int j"
proof (induction xs arbitrary: j)
  case Nil
  then show ?case by simp
next
  case (Cons x xs)
  show ?case
  proof (cases j)
    case 0
    then show ?thesis by simp
  next
    case (Suc j')
    then have j': "j' < length xs" using Cons.prems by simp
    then have "el_id (xs ! j') \<in> el_id ` set xs" by simp
    then have "el_id (xs ! j') \<noteq> el_id x" using Cons.prems(1) by auto
    moreover have "findIndex (\<lambda>e. el_id e = el_id (xs ! j')) xs = int j'"
      using Cons.IH[OF _ j'] Cons.prems(1) by simp
    ultimately show ?thesis using Suc by (simp add: Let_def)
  qed
qed


lemma nth_id_unique:
  assumes "distinct (map el_id xs)" "i < length xs" "j < length xs" "el_id (xs ! i) = el_id (xs ! j)"
  shows "i = j"
proof -
  have "map el_id xs ! i = map el_id xs ! j" using assms by simp
  moreover have "i < length (map el_id xs)" "j < length (map el_id xs)" using assms by simp_all
  ultimately show ?thesis using assms(1) nth_eq_iff_index_eq by blast
qed

lemma front_rank:
  assumes "distinct (map el_id els)" "j < length els"
  shows "zOrder (restack ((normalizedZ (sortedByZ els))(tid \<mapsto> tgt)) (sortedByZ els ! j))
         = (if el_id (sortedByZ els ! j) = tid then tgt else (real j + 1) * 10)"
  using assms normalizedZ_rank[of "sortedByZ els" j]
  by (simp add: zOrder_restack distinct_ids_sortedByZ)

lemma changeZIndex_Front_elements:
  "selectedIds s = tid # rest \<Longrightarrow>
   elements (changeZIndex Front s) =
     map (restack ((normalizedZ (sortedByZ (elements s)))(tid \<mapsto> (real (length (elements s)) + 1) * 10)))
         (elements s)"
  by (simp add: changeZIndex_def movedZ_def Let_def)

lemma changeZIndex_Forward_top:
  assumes "selectedIds s = tid # rest" "distinct (map el_id (elements s))" "elements s \<noteq> []"
    and "el_id (last (sortedByZ (elements s))) = tid"
  shows "elements (changeZIndex Forward s) = map (restack (normalizedZ (sortedByZ (elements s)))) (elements s)"
proof -
  let ?srt = "sortedByZ (elements s)"
  have ne: "?srt \<noteq> []" using assms(3) by (metis length_0_conv length_sortedByZ)
  have len: "length ?srt = length (elements s)" by simp
  have l: "last ?srt = ?srt ! (length ?srt - 1)" using ne by (simp add: last_conv_nth)
  have "findIndex (\<lambda>e. el_id e = el_id (?srt ! (length ?srt - 1))) ?srt = int (length ?srt - 1)"
    by (rule findIndex_nth) (use assms(2,3) len in \<open>simp_all add: distinct_ids_sortedByZ\<close>)
  then have "findIndex (\<lambda>e. el_id e = tid) ?srt = int (length ?srt) - 1"
    using assms(3,4) l by (cases "elements s") (simp_all add: set_sortedByZ)
  then show ?thesis using assms(1)
    by (simp add: changeZIndex_def movedZ_def Let_def)
qed

text \<open>
  Claim C8. In a scene whose elements have pairwise different ids, let the first selected id be
  that of an element. Then \<open>changeZIndex Front\<close> gives every other element the z-index
  \<open>10 * (j + 1)\<close>, where \<open>j\<close> is its position in the list sorted stably by the current
  z-index, and gives the target \<open>10 * (n + 1)\<close>, which is strictly greater than the z-index
  of every other element; the target is the last element that a following render paints. And
  when the target is already the last element in paint order, \<open>changeZIndex Forward\<close> leaves
  the paint order as it is.
\<close>

theorem changeZIndex_front_on_top:
  assumes d: "distinct (map el_id (elements s))"
    and sel: "selectedIds s = tid # rest"
    and t: "tid \<in> el_id ` set (elements s)"
  shows "(\<forall>j < length (elements s). \<forall>el \<in> set (elements (changeZIndex Front s)).
            el_id el = el_id (sortedByZ (elements s) ! j) \<longrightarrow>
            zIndex (el_style el) = (if el_id el = tid then (real (length (elements s)) + 1) * 10
                                    else (real j + 1) * 10))
       \<and> (\<forall>tgt \<in> set (elements (changeZIndex Front s)). \<forall>el \<in> set (elements (changeZIndex Front s)).
            el_id tgt = tid \<and> el_id el \<noteq> tid \<longrightarrow> zIndex (el_style el) < zIndex (el_style tgt))
       \<and> el_id (last (sortedElements (changeZIndex Front s))) = tid
       \<and> (el_id (last (sortedElements s)) = tid \<longrightarrow>
            map el_id (sortedElements (changeZIndex Forward s)) = map el_id (sortedElements s))"
proof -
  let ?els = "elements s"
  let ?n = "length ?els"
  let ?srt = "sortedByZ ?els"
  let ?ztop = "(real ?n + 1) * 10"
  let ?m = "(normalizedZ ?srt)(tid \<mapsto> ?ztop)"
  let ?front = "elements (changeZIndex Front s)"
  have fe: "?front = map (restack ?m) ?els"
    by (rule changeZIndex_Front_elements[OF sel])
  have ds: "distinct (map el_id ?srt)" using d by (simp add: distinct_ids_sortedByZ)
  have ne: "?els \<noteq> []" using t by auto
  have rank: "\<exists>j < ?n. el = restack ?m (?srt ! j) \<and>
                zOrder el = (if el_id el = tid then ?ztop else (real j + 1) * 10)"
    if "el \<in> set ?front" for el
  proof -
    from that obtain e where e: "e \<in> set ?els" "el = restack ?m e" unfolding fe by auto
    then have "e \<in> set ?srt" by (simp add: set_sortedByZ)
    then obtain j where "j < length ?srt" "?srt ! j = e" unfolding in_set_conv_nth by blast
    then have j: "j < ?n" "?srt ! j = e" by (simp_all add: set_sortedByZ)
    have "zOrder (restack ?m (?srt ! j)) = (if el_id (?srt ! j) = tid then ?ztop else (real j + 1) * 10)"
      by (rule front_rank[OF d j(1)])
    then show ?thesis using e j by auto
  qed
  have a: "\<forall>j < ?n. \<forall>el \<in> set ?front. el_id el = el_id (?srt ! j) \<longrightarrow>
             zOrder el = (if el_id el = tid then ?ztop else (real j + 1) * 10)"
  proof (intro allI impI ballI)
    fix j el assume j: "j < ?n" and el: "el \<in> set ?front" and id: "el_id el = el_id (?srt ! j)"
    from rank[OF el] obtain j' where j': "j' < ?n" "el = restack ?m (?srt ! j')"
      "zOrder el = (if el_id el = tid then ?ztop else (real j' + 1) * 10)" by blast
    have "el_id (?srt ! j') = el_id (?srt ! j)" using j'(2) id by simp
    then have "j' = j" using nth_id_unique[OF ds, of j' j] j j'(1) by simp
    then show "zOrder el = (if el_id el = tid then ?ztop else (real j + 1) * 10)" using j'(3) by simp
  qed
  have b: "\<forall>tgt \<in> set ?front. \<forall>el \<in> set ?front.
             el_id tgt = tid \<and> el_id el \<noteq> tid \<longrightarrow> zOrder el < zOrder tgt"
  proof (intro ballI impI)
    fix tgt el assume tgt: "tgt \<in> set ?front" and el: "el \<in> set ?front"
      and ids: "el_id tgt = tid \<and> el_id el \<noteq> tid"
    from rank[OF tgt] ids have zt: "zOrder tgt = ?ztop" by auto
    from rank[OF el] ids obtain j where "j < ?n" "zOrder el = (real j + 1) * 10" by auto
    then have "zOrder el < ?ztop" by simp
    then show "zOrder el < zOrder tgt" using zt by simp
  qed
  have c: "el_id (last (sortedElements (changeZIndex Front s))) = tid"
  proof (rule ccontr)
    let ?ys = "sortedElements (changeZIndex Front s)"
    assume neq: "el_id (last ?ys) \<noteq> tid"
    have ys1: "set ?ys = set ?front" by (simp add: sortedElements_def set_sortedByZ)
    have "length ?ys = length ?els" by (simp add: sortedElements_def fe)
    then have "?ys \<noteq> []" using ne by auto
    note ys = ys1 this
    have srt: "sorted (map zOrder ?ys)" by (simp add: sortedElements_def sortedByZ_def)
    from t obtain e where e: "e \<in> set ?els" "el_id e = tid" by auto
    then have tgt: "restack ?m e \<in> set ?front" "el_id (restack ?m e) = tid" unfolding fe by auto
    have "last ?ys \<in> set ?front" using ys last_in_set by blast
    then have "zOrder (last ?ys) < zOrder (restack ?m e)" using b tgt neq by blast
    moreover have "zOrder (restack ?m e) \<le> zOrder (last ?ys)"
      by (rule sorted_last_max[OF srt]) (use tgt ys in simp)
    ultimately show False by simp
  qed
  have dd: "map el_id (sortedElements (changeZIndex Forward s)) = map el_id (sortedElements s)"
    if tgt: "el_id (last (sortedElements s)) = tid"
  proof -
    let ?r = "restack (normalizedZ ?srt)"
    have fw: "elements (changeZIndex Forward s) = map ?r ?els"
      by (rule changeZIndex_Forward_top[OF sel d ne]) (use tgt in \<open>simp add: sortedElements_def\<close>)
    have z: "zOrder (?r (?srt ! j)) = (real j + 1) * 10" if "j < ?n" for j
      using normalizedZ_rank[OF ds, of j] that by (simp add: zOrder_restack)
    have ms: "mset (map ?r ?els) = mset (map ?r ?srt)"
      by (simp add: sortedByZ_def)
    have inj: "inj_on zOrder (set (map ?r ?els))"
    proof (rule inj_onI)
      fix u v assume u: "u \<in> set (map ?r ?els)" and v: "v \<in> set (map ?r ?els)" and eq: "zOrder u = zOrder v"
      have pick: "\<exists>i < ?n. w = ?r (?srt ! i)" if "w \<in> set (map ?r ?els)" for w
      proof -
        from that obtain e where "e \<in> set ?srt" "w = ?r e" by (auto simp: set_sortedByZ)
        then show ?thesis unfolding in_set_conv_nth by (auto simp: set_sortedByZ)
      qed
      from pick[OF u] obtain i where i: "i < ?n" "u = ?r (?srt ! i)" by blast
      from pick[OF v] obtain j where j: "j < ?n" "v = ?r (?srt ! j)" by blast
      from eq i j z have "(real i + 1) * 10 = (real j + 1) * 10" by simp
      then have "i = j" by simp
      then show "u = v" using i j by simp
    qed
    have so: "sorted (map zOrder (map ?r ?srt))"
      unfolding sorted_iff_nth_mono_less
    proof (intro allI impI)
      fix i j assume "i < j" and "j < length (map zOrder (map ?r ?srt))"
      then have "i < ?n" "j < ?n" "i < j" by (simp_all add: set_sortedByZ)
      then show "map zOrder (map ?r ?srt) ! i \<le> map zOrder (map ?r ?srt) ! j"
        using z by simp
    qed
    have "sort_key zOrder (map ?r ?els) = map ?r ?srt"
      by (rule sort_key_inj_key_eq[OF ms inj so])
    then have "sortedElements (changeZIndex Forward s) = map ?r ?srt"
      by (simp add: sortedElements_def sortedByZ_def fw)
    then show ?thesis by (simp add: sortedElements_def comp_def)
  qed
  show ?thesis using a b c dd by blast
qed

lemma els_twoShapes:
  "elements twoShapes = [shapeEl ''a'' 10, shapeEl ''b'' 20]"
  by (simp add: twoShapes_def initialEditor_def Let_def shapeEl_def bareStyle_def
      defaultScale_def nullish_def)

text \<open>The theorem on the two shapes: \<open>a\<close> is brought to the front, \<open>b\<close> is already on top.\<close>

theorem changeZIndex_front_on_top_witness:
  "distinct (map el_id (elements lowerSelected)) \<and> selectedIds lowerSelected = [''a'']
   \<and> ''a'' \<in> el_id ` set (elements lowerSelected)
   \<and> el_id (last (sortedElements (changeZIndex Front lowerSelected))) = ''a''
   \<and> el_id (last (sortedElements upperSelected)) = ''b''
   \<and> map el_id (sortedElements (changeZIndex Forward upperSelected)) = [''a'', ''b'']"
proof -
  have l: "elements lowerSelected = [shapeEl ''a'' 10, shapeEl ''b'' 20]"
    "selectedIds lowerSelected = [''a'']"
    by (simp_all add: lowerSelected_def els_twoShapes)
  have u: "elements upperSelected = [shapeEl ''a'' 10, shapeEl ''b'' 20]"
    "selectedIds upperSelected = [''b'']"
    by (simp_all add: upperSelected_def els_twoShapes)
  have ids: "el_id (shapeEl ''a'' 10) = ''a''" "el_id (shapeEl ''b'' 20) = ''b''"
    by (simp_all add: shapeEl_def)
  have so: "sortedElements upperSelected = [shapeEl ''a'' 10, shapeEl ''b'' 20]"
    by (simp add: sortedElements_def sortedByZ_def u shapeEl_def bareStyle_def)
  have h1: "distinct (map el_id (elements lowerSelected))" "''a'' \<in> el_id ` set (elements lowerSelected)"
    by (simp_all add: l ids)
  have h2: "distinct (map el_id (elements upperSelected))" "''b'' \<in> el_id ` set (elements upperSelected)"
    by (simp_all add: u ids)
  have t: "el_id (last (sortedElements upperSelected)) = ''b''"
    by (simp add: so ids)
  have f: "el_id (last (sortedElements (changeZIndex Front lowerSelected))) = ''a''"
    using changeZIndex_front_on_top[OF h1(1) l(2) h1(2)] by blast
  have "map el_id (sortedElements (changeZIndex Forward upperSelected))
          = map el_id (sortedElements upperSelected)"
    using changeZIndex_front_on_top[OF h2(1) u(2) h2(2)] t by blast
  then have "map el_id (sortedElements (changeZIndex Forward upperSelected)) = [''a'', ''b'']"
    by (simp add: so ids)
  then show ?thesis using h1 l(2) f t by blast
qed

section \<open>Locked elements\<close>

lemma updateSelected_keeps_locked:
  "elements (updateSelected updates s) = map (updateElement updates (selectedIds s)) (elements s)"
  "truthy (el_locked el) \<Longrightarrow> updateElement updates sel el = el"
  by (simp_all add: updateSelected_def Let_def updateElement_def)

lemma handleMouseDown_locked:
  "find (\<lambda>item. el_id item = i) (elements s) = Some el \<Longrightarrow> truthy (el_locked el) \<Longrightarrow>
   handleMouseDown e i act s = s"
  by (simp add: handleMouseDown_def)

lemma set_sortedElements: "set (sortedElements s) = set (elements s)"
  by (simp add: sortedElements_def sortedByZ_def)

lemma elements_handleMouseUp: "elements (handleMouseUp s) = elements s"
  by (simp add: handleMouseUp_def Let_def split: option.splits)

lemma els_beforeMouseUp:
  "elements (handleMouseMove (pointer 160 100 True) (Some (0, 0))
     (handleMouseMove (pointer 130 100 True) (Some (0, 0))
       (handleMouseDown (pointer 100 100 True) ''b'' Drag lockedA)))
   = [(shapeEl ''a'' 10)\<lparr>el_locked := Some True, el_x := 400\<rparr>, (shapeEl ''b'' 20)\<lparr>el_x := 400\<rparr>]"
  by (simp add: lockedA_def toggleLock_def handleMouseUp_def handleMouseMove_def
      handleMouseDown_def dragElement_def twoShapes_def
      initialEditor_def saveElements_def saveToHistory_def pointer_def shapeEl_def bareStyle_def
      defaultScale_def nullish_def truthy_def dims_def Let_def)

text \<open>
  Claim C7 at a failing input. The shape \<open>a\<close> is selected and locked; then the shape
  \<open>b\<close> is pressed with the shift key held, which adds it to the selection, and dragged by 60
  pixels at zoom 0.6. The drag moves every selected element that has a start state, and the locked
  shape \<open>a\<close> goes from \<open>x = 300\<close> to \<open>x = 400\<close> with \<open>b\<close>.
\<close>

theorem locked_element_dragged:
  "elements lockedA = [(shapeEl ''a'' 10)\<lparr>el_locked := Some True\<rparr>, shapeEl ''b'' 20]
   \<and> truthy (el_locked ((shapeEl ''a'' 10)\<lparr>el_locked := Some True\<rparr>))
   \<and> el_x ((shapeEl ''a'' 10)\<lparr>el_locked := Some True\<rparr>) = 300
   \<and> elements draggedWithLocked =
       [(shapeEl ''a'' 10)\<lparr>el_locked := Some True, el_x := 400\<rparr>, (shapeEl ''b'' 20)\<lparr>el_x := 400\<rparr>]"
  by (simp add: els_lockedA draggedWithLocked_def elements_handleMouseUp els_beforeMouseUp
      truthy_def shapeEl_def)

section \<open>The rotate gesture\<close>

lemma arctan_le_arg:
  assumes "0 \<le> (x::real)"
  shows "arctan x \<le> x"
proof -
  have "(\<lambda>t. t - arctan t) 0 \<le> (\<lambda>t. t - arctan t) x"
  proof (rule DERIV_nonneg_imp_nondecreasing[OF assms])
    fix t :: real
    have "DERIV (\<lambda>t. t - arctan t) t :> 1 - inverse (1 + t\<^sup>2)"
      by (auto intro!: derivative_eq_intros)
    moreover have "inverse (1 + t\<^sup>2) \<le> 1"
      by (rule inverse_le_1_iff[THEN iffD2]) (simp add: )
    ultimately show "\<exists>y. DERIV (\<lambda>t. t - arctan t) t :> y \<and> 0 \<le> y"
      by (intro exI[of _ "1 - inverse (1 + t\<^sup>2)"]) simp
  qed
  then show ?thesis by simp
qed

lemma small_angle:
  fixes a :: real
  assumes "a = arctan (1 / 100) * (180 / pi)"
  shows "0 < a" "a < 1"
proof -
  have p: "0 < arctan (1 / 100 :: real)" by (simp add: zero_less_arctan_iff)
  then show "0 < a" unfolding assms by simp
  have u: "arctan (1 / 100 :: real) \<le> 1 / 100" by (rule arctan_le_arg) simp
  have v: "180 / pi \<le> 90" using pi_ge_two by (simp add: field_simps)
  have "arctan (1 / 100) * (180 / pi) \<le> (1 / 100) * (90 :: real)"
    by (rule mult_mono[OF u v]) (use p in simp_all)
  also have "\<dots> < 1" by simp
  finally show "a < 1" unfolding assms .
qed

text \<open>
  What the snapping does for every angle: the angle is kept, or it is replaced by a multiple of 45
  that is less than 5 degrees away.
\<close>

lemma snapped_or_kept:
  fixes a :: real
  defines "r \<equiv> (if \<bar>jsRem a 45\<bar> < 5 then jsRound (a / 45) * 45 else a)"
  shows "r = a \<or> (\<exists>k::int. r = 45 * of_int k \<and> \<bar>r - a\<bar> < 5)"
proof (cases "\<bar>jsRem a 45\<bar> < 5")
  case False
  then show ?thesis by (simp add: r_def)
next
  case True
  define t :: int where "t = (if a / 45 \<ge> 0 then \<lfloor>a / 45\<rfloor> else \<lceil>a / 45\<rceil>)"
  have rem: "jsRem a 45 = a - 45 * of_int t" by (simp add: jsRem_def t_def)
  with True have b: "\<bar>a - 45 * of_int t\<bar> < 5" by simp
  have "\<lfloor>a / 45 + 1 / 2\<rfloor> = t"
  proof (rule floor_unique)
    show "of_int t \<le> a / 45 + 1 / 2" using b by (simp add: field_simps abs_less_iff)
    show "a / 45 + 1 / 2 < of_int t + 1" using b by (simp add: field_simps abs_less_iff)
  qed
  then have "r = 45 * of_int t" using True by (simp add: r_def jsRound_def)
  then show ?thesis using b by (auto simp: abs_minus_commute)
qed

text \<open>
  Claim C4 at a failing input. With the pointer 100 pixels to the right of the centre and 1 pixel
  above it, the angle is \<open>90 - arctan (1 / 100)\<close> in degrees, between 89 and 90: it lies
  within 5 degrees of the multiple 90 and is kept as it is. With the pointer 1 pixel below
  instead, the angle is as far from 90 on the other side, and the result is 90.
\<close>

theorem rotation_not_snapped_below_multiple:
  "rotationAngle (100, -1) (0, 0) = 90 - arctan (1 / 100) * (180 / pi)
   \<and> 89 < rotationAngle (100, -1) (0, 0) \<and> rotationAngle (100, -1) (0, 0) < 90
   \<and> rotationAngle (100, 1) (0, 0) = 90"
proof -
  define a :: real where "a = arctan (1 / 100) * (180 / pi)"
  have a: "0 < a" "a < 1" by (rule small_angle[OF a_def])+
  have r1: "rotationAngle (100, -1) (0, 0) = 90 - a"
  proof -
    have e: "atan2 (snd (100::real, -1::real) - snd (0::real, 0::real))
                   (fst (100::real, -1::real) - fst (0::real, 0::real)) * (180 / pi) + 90 = 90 - a"
      by (simp add: atan2_def arctan_minus a_def)
    have q: "\<lfloor>(90 - a) / 45\<rfloor> = 1"
      using a by (intro floor_unique) simp_all
    have r: "jsRem (90 - a) 45 = 45 - a"
      using a unfolding jsRem_def q by simp
    show ?thesis unfolding rotationAngle_def Let_def e r using a by simp
  qed
  have r2: "rotationAngle (100, 1) (0, 0) = 90"
  proof -
    have e: "atan2 (snd (100::real, 1::real) - snd (0::real, 0::real))
                   (fst (100::real, 1::real) - fst (0::real, 0::real)) * (180 / pi) + 90 = 90 + a"
      by (simp add: atan2_def a_def)
    have q: "\<lfloor>(90 + a) / 45\<rfloor> = 2"
      using a by (intro floor_unique) simp_all
    have q': "\<lfloor>(90 + a) / 45 + 1 / 2\<rfloor> = 2"
      using a by (intro floor_unique) (simp_all add: field_simps)
    have r: "jsRem (90 + a) 45 = a"
      using a unfolding jsRem_def q by simp
    show ?thesis unfolding rotationAngle_def Let_def e r jsRound_def q' using a by simp
  qed
  show ?thesis using r1 r2 a by (simp add: a_def)
qed

section \<open>Image generation\<close>

lemma includesStr_mid: "includesStr (pre @ mid @ post) mid"
proof (induction pre)
  case Nil
  show ?case
  proof (cases "mid @ post")
    case Nil
    then show ?thesis by simp
  next
    case (Cons a list)
    have "take (length mid) (mid @ post) = mid" by simp
    then show ?thesis unfolding Cons by simp
  qed
next
  case (Cons c pre)
  then show ?case by simp
qed

text \<open>
  Claim C10. When the prompt is empty, whatever the list of reference images is, and when some
  part of the prompt is \<open>user provided background\<close> up to the case of its letters and the list
  of reference images is empty, \<open>generateImage\<close> resolves to the empty string and leaves the
  session as it was: no request is sent and no error is raised.
\<close>

theorem generateImage_short_circuit:
  "(prompt = [] \<longrightarrow> generateImage g prompt ratio referenceImages st = (Inr [], st))
   \<and> ((\<exists>pre mid post. prompt = pre @ mid @ post \<and> toLowerCase mid = ''user provided background'')
        \<longrightarrow> generateImage g prompt ratio [] st = (Inr [], st))"
proof (intro conjI impI)
  assume "prompt = []"
  then show "generateImage g prompt ratio referenceImages st = (Inr [], st)"
    by (simp add: generateImage_def)
next
  assume "\<exists>pre mid post. prompt = pre @ mid @ post \<and> toLowerCase mid = ''user provided background''"
  then obtain pre mid post where
    p: "prompt = pre @ mid @ post" and m: "toLowerCase mid = ''user provided background''"
    by blast
  have "toLowerCase prompt = toLowerCase pre @ toLowerCase mid @ toLowerCase post"
    by (simp add: p toLowerCase_def)
  then have "includesStr (toLowerCase prompt) ''user provided background''"
    using includesStr_mid[of "toLowerCase pre" "toLowerCase mid" "toLowerCase post"] m by simp
  then show "generateImage g prompt ratio [] st = (Inr [], st)"
    by (simp add: generateImage_def)
qed

text \<open>
  The theorem on the empty prompt with a reference image, and on a prompt that names the user's
  background in capitals with no reference image.
\<close>

theorem generateImage_short_circuit_witness:
  "generateImage refusing [] R1_1 [''data:image/png;base64,AAAA''] freshSession = (Inr [], freshSession)
   \<and> ''Use the USER PROVIDED Background.'' = ''Use the '' @ ''USER PROVIDED Background'' @ ''.''
   \<and> toLowerCase ''USER PROVIDED Background'' = ''user provided background''
   \<and> generateImage refusing ''Use the USER PROVIDED Background.'' R1_1 [] freshSession
       = (Inr [], freshSession)"
proof -
  have c: "''Use the USER PROVIDED Background.'' = ''Use the '' @ ''USER PROVIDED Background'' @ ''.''
        \<and> toLowerCase ''USER PROVIDED Background'' = ''user provided background''"
    by code_simp
  then have h: "\<exists>pre mid post. ''Use the USER PROVIDED Background.'' = pre @ mid @ post
       \<and> toLowerCase mid = ''user provided background''"
    by blast
  have 1: "generateImage refusing [] R1_1 [''data:image/png;base64,AAAA''] freshSession
            = (Inr [], freshSession)"
    using generateImage_short_circuit[of "[]" refusing R1_1 "[''data:image/png;base64,AAAA'']"
        freshSession, THEN conjunct1]
    by simp
  have 2: "generateImage refusing ''Use the USER PROVIDED Background.'' R1_1 [] freshSession
            = (Inr [], freshSession)"
    using generateImage_short_circuit[of "''Use the USER PROVIDED Background.''" refusing R1_1 "[]"
        freshSession, THEN conjunct2] h
    by blast
  show ?thesis using 1 2 c by blast
qed

lemma getClient_requests: "getClient g st = Inr st0 \<Longrightarrow> requests st0 = requests st \<and> ai st0"
  by (auto simp: getClient_def split: if_splits option.splits)

lemma getClient_again: "getClient g st = Inr st0 \<Longrightarrow> getClient g (st0\<lparr>requests := rs\<rparr>) = Inr (st0\<lparr>requests := rs\<rparr>)"
  by (auto simp: getClient_def split: if_splits option.splits)

lemma executeGen_refusal:
  assumes "getClient g st = Inr st0"
    and "imageService g (length (requests st0)) (imageRequest ratio t) = ImageResolved (Some outputParts)"
    and "list_all (\<lambda>p. \<not> hasImage p) outputParts"
  shows "\<exists>e. executeGen g ratio t st = (Inl e, st0\<lparr>requests := requests st0 @ [imageRequest ratio t]\<rparr>)"
proof -
  have "find hasImage outputParts = None"
    using assms(3) by (simp add: find_None_iff list_all_iff)
  then show ?thesis using assms(1,2)
    by (simp add: executeGen_def Let_def split: option.splits)
qed

lemma executeGen_state:
  assumes "getClient g st = Inr st0"
  shows "snd (executeGen g ratio t st) = st0\<lparr>requests := requests st0 @ [imageRequest ratio t]\<rparr>"
  using assms
  by (simp add: executeGen_def Let_def split: image_response.splits option.splits)

lemma generateImage_two_failures:
  assumes "prompt \<noteq> []"
    and "\<not> includesStr (toLowerCase prompt) ''user provided background''"
    and "getClient g st = Inr st0"
    and "imageService g (length (requests st0)) (imageRequest ratio (strictPrompt prompt))
           = ImageResolved (Some outputParts)"
    and "list_all (\<lambda>p. \<not> hasImage p) outputParts"
    and "fst (executeGen g ratio (fallbackPrompt prompt)
               (st0\<lparr>requests := requests st0 @ [imageRequest ratio (strictPrompt prompt)]\<rparr>)) = Inl retryError"
  shows "generateImage g prompt ratio referenceImages st =
           (Inl GenerationFailed,
            st0\<lparr>requests := requests st @ [imageRequest ratio (strictPrompt prompt),
                                           imageRequest ratio (fallbackPrompt prompt)]\<rparr>)"
proof -
  let ?st1 = "st0\<lparr>requests := requests st0 @ [imageRequest ratio (strictPrompt prompt)]\<rparr>"
  obtain e where e1: "executeGen g ratio (strictPrompt prompt) st = (Inl e, ?st1)"
    using executeGen_refusal[OF assms(3,4,5)] by blast
  have c: "getClient g ?st1 = Inr ?st1"
    using getClient_again[OF assms(3)] by simp
  have "snd (executeGen g ratio (fallbackPrompt prompt) ?st1)
        = ?st1\<lparr>requests := requests ?st1 @ [imageRequest ratio (fallbackPrompt prompt)]\<rparr>"
    by (rule executeGen_state[OF c])
  with assms(6) have e2: "executeGen g ratio (fallbackPrompt prompt) ?st1
     = (Inl retryError, ?st1\<lparr>requests := requests ?st1 @ [imageRequest ratio (fallbackPrompt prompt)]\<rparr>)"
    by (simp add: prod_eq_iff)
  show ?thesis
    using assms(1,2) e1 e2 getClient_requests[OF assms(3)]
    by (simp add: generateImage_def)
qed

lemma sent_ratio:
  "(if ratio = R4_5 then ''3:4'' else ratioName ratio) =
     (case ratio of R1_1 \<Rightarrow> ''1:1'' | R16_9 \<Rightarrow> ''16:9'' | R9_16 \<Rightarrow> ''9:16''
      | R3_4 \<Rightarrow> ''3:4'' | R4_5 \<Rightarrow> ''3:4'')"
  by (cases ratio) (simp_all add: ratioName_def)

text \<open>
  Claim C6. Let the prompt be one for which a generation is attempted, and let the client be
  available. When the answer to the primary request carries no inline image data (a text-only
  refusal) and the fallback attempt fails too, \<open>generateImage\<close> sends exactly two requests
  to the model \<open>gemini-2.5-flash-image\<close>, the first with the prompt framed as
  \<open>Professional photography\<close> and the second with the prompt framed as
  \<open>Artistic illustration style\<close>, both with the aspect ratio of the call (4:5 sent as 3:4),
  and fails with the single error \<open>Model refused to generate image. Try a simpler prompt.\<close>
\<close>

theorem generateImage_refused_twice:
  assumes "prompt \<noteq> []"
    and "\<not> includesStr (toLowerCase prompt) ''user provided background''"
    and "getClient g st = Inr st0"
    and "sentRatio = (case ratio of R1_1 \<Rightarrow> ''1:1'' | R16_9 \<Rightarrow> ''16:9'' | R9_16 \<Rightarrow> ''9:16''
                      | R3_4 \<Rightarrow> ''3:4'' | R4_5 \<Rightarrow> ''3:4'')"
    and "primary = \<lparr>rq_model = ''gemini-2.5-flash-image'',
           rq_text = ''Professional photography, '' @ prompt @
             ''. Cinematic lighting, 8k resolution, high quality, highly detailed, text-free background.'',
           rq_aspectRatio = Some sentRatio\<rparr>"
    and "retry = \<lparr>rq_model = ''gemini-2.5-flash-image'',
           rq_text = ''Artistic illustration style, '' @ prompt @
             ''. Soft colors, minimalist, abstract, high quality, no text.'',
           rq_aspectRatio = Some sentRatio\<rparr>"
    and "imageService g (length (requests st0)) primary = ImageResolved (Some outputParts)"
    and "list_all (\<lambda>p. \<not> hasImage p) outputParts"
    and "fst (executeGen g ratio (rq_text retry) (st0\<lparr>requests := requests st0 @ [primary]\<rparr>))
           = Inl retryError"
  shows "generateImage g prompt ratio referenceImages st =
           (Inl (Error ''Model refused to generate image. Try a simpler prompt.''),
            st0\<lparr>requests := requests st @ [primary, retry]\<rparr>)"
proof -
  have p: "primary = imageRequest ratio (strictPrompt prompt)"
    and r: "retry = imageRequest ratio (fallbackPrompt prompt)"
    and t: "rq_text retry = fallbackPrompt prompt"
    unfolding assms(4,5,6)
    by (simp_all add: imageRequest_def strictPrompt_def fallbackPrompt_def sent_ratio)
  show ?thesis
    using generateImage_two_failures[OF assms(1,2,3) assms(7)[unfolded p] assms(8)
        assms(9)[unfolded t, unfolded p], of referenceImages]
    unfolding p r GenerationFailed_def .
qed

text \<open>The theorem on a service that refuses every request with a text part, for the ratio 4:5.\<close>

theorem generateImage_refused_twice_witness:
  "''a red car'' \<noteq> [] \<and> \<not> includesStr (toLowerCase ''a red car'') ''user provided background''
   \<and> getClient refusing freshSession = Inr (freshSession\<lparr>ai := True\<rparr>)
   \<and> generateImage refusing ''a red car'' R4_5 [] freshSession =
       (Inl (Error ''Model refused to generate image. Try a simpler prompt.''),
        \<lparr>ai = True,
         requests =
           [\<lparr>rq_model = ''gemini-2.5-flash-image'',
             rq_text = ''Professional photography, a red car. Cinematic lighting, 8k resolution, high quality, highly detailed, text-free background.'',
             rq_aspectRatio = Some ''3:4''\<rparr>,
            \<lparr>rq_model = ''gemini-2.5-flash-image'',
             rq_text = ''Artistic illustration style, a red car. Soft colors, minimalist, abstract, high quality, no text.'',
             rq_aspectRatio = Some ''3:4''\<rparr>]\<rparr>)"
proof -
  let ?parts = "[\<lparr>p_text = Some ''I cannot generate that image.'', p_inlineData = None\<rparr>]"
  let ?primary = "\<lparr>rq_model = ''gemini-2.5-flash-image'',
             rq_text = ''Professional photography, a red car. Cinematic lighting, 8k resolution, high quality, highly detailed, text-free background.'',
             rq_aspectRatio = Some ''3:4''\<rparr>"
  let ?retry = "\<lparr>rq_model = ''gemini-2.5-flash-image'',
             rq_text = ''Artistic illustration style, a red car. Soft colors, minimalist, abstract, high quality, no text.'',
             rq_aspectRatio = Some ''3:4''\<rparr>"
  have h1: "''a red car'' \<noteq> []" by simp
  have h2: "\<not> includesStr (toLowerCase ''a red car'') ''user provided background''"
    by code_simp
  have h3: "getClient refusing freshSession = Inr (freshSession\<lparr>ai := True\<rparr>)"
    by (simp add: getClient_def refusing_def freshSession_def)
  have h4: "''3:4'' = (case R4_5 of R1_1 \<Rightarrow> ''1:1'' | R16_9 \<Rightarrow> ''16:9'' | R9_16 \<Rightarrow> ''9:16''
                      | R3_4 \<Rightarrow> ''3:4'' | R4_5 \<Rightarrow> ''3:4'')"
    by simp
  have h5: "?primary = \<lparr>rq_model = ''gemini-2.5-flash-image'',
           rq_text = ''Professional photography, '' @ ''a red car'' @
             ''. Cinematic lighting, 8k resolution, high quality, highly detailed, text-free background.'',
           rq_aspectRatio = Some ''3:4''\<rparr>"
    by simp
  have h6: "?retry = \<lparr>rq_model = ''gemini-2.5-flash-image'',
           rq_text = ''Artistic illustration style, '' @ ''a red car'' @
             ''. Soft colors, minimalist, abstract, high quality, no text.'',
           rq_aspectRatio = Some ''3:4''\<rparr>"
    by simp
  have h7: "imageService refusing (length (requests (freshSession\<lparr>ai := True\<rparr>))) ?primary
              = ImageResolved (Some ?parts)"
    by (simp add: refusing_def)
  have h8: "list_all (\<lambda>p. \<not> hasImage p) ?parts"
    by (simp add: hasImage_def)
  have h9: "fst (executeGen refusing R4_5 (rq_text ?retry)
              ((freshSession\<lparr>ai := True\<rparr>)\<lparr>requests := requests (freshSession\<lparr>ai := True\<rparr>)
                 @ [?primary]\<rparr>))
            = Inl (Error ''I cannot generate that image.'')"
    by (simp add: executeGen_def getClient_def refusing_def freshSession_def hasImage_def
        nonEmpty_def Let_def)
  have "generateImage refusing ''a red car'' R4_5 [] freshSession =
       (Inl (Error ''Model refused to generate image. Try a simpler prompt.''),
        (freshSession\<lparr>ai := True\<rparr>)\<lparr>requests := requests freshSession @ [?primary, ?retry]\<rparr>)"
    by (rule generateImage_refused_twice[OF h1 h2 h3 h4 h5 h6 h7 h8 h9])
  then show ?thesis using h1 h2 h3 by (simp add: freshSession_def)
qed

lemma executeGen_sends_at_most_one:
  "length (requests (snd (executeGen g ratio t st))) \<le> length (requests st) + 1"
proof (cases "getClient g st")
  case (Inl e)
  then show ?thesis by (simp add: executeGen_def)
next
  case (Inr st0)
  then show ?thesis using executeGen_state[OF Inr] getClient_requests[OF Inr] by simp
qed

lemma generateImage_sends_at_most_two:
  "length (requests (snd (generateImage g prompt ratio refs st))) \<le> length (requests st) + 2"
proof -
  obtain r1 st1 where e1: "executeGen g ratio (strictPrompt prompt) st = (r1, st1)"
    by (cases "executeGen g ratio (strictPrompt prompt) st")
  obtain r2 st2 where e2: "executeGen g ratio (fallbackPrompt prompt) st1 = (r2, st2)"
    by (cases "executeGen g ratio (fallbackPrompt prompt) st1")
  have l1: "length (requests st1) \<le> length (requests st) + 1"
    using executeGen_sends_at_most_one[of g ratio "strictPrompt prompt" st] e1 by simp
  have l2: "length (requests st2) \<le> length (requests st1) + 1"
    using executeGen_sends_at_most_one[of g ratio "fallbackPrompt prompt" st1] e2 by simp
  show ?thesis using e1 e2 l1 l2
    by (simp add: generateImage_def split: sum.splits)
qed

section \<open>The campaign plan\<close>

text \<open>A text without a backtick holds no fence; a closing fence after it is removed.\<close>

lemma stripFences_Nil: "stripFences [] = []"
  by (subst stripFences.simps) simp

lemma stripFences_closing:
  assumes "CHR ''`'' \<notin> set body" and "body = [] \<or> last body \<noteq> CHR 0x0A"
  shows "stripFences (body @ ''```'') = body"
  using assms
proof (induction body)
  case Nil
  show ?case
    by (subst stripFences.simps) (simp add: Let_def stripFences_Nil)
next
  case (Cons c cs)
  then have c: "c \<noteq> CHR ''`''" and cs: "CHR ''`'' \<notin> set cs" by auto
  have l: "cs = [] \<or> last cs \<noteq> CHR 0x0A" using Cons.prems(2) by (auto split: if_splits)
  have n: "take 4 ((c # cs) @ ''```'') \<noteq> CHR 0x0A # ''```''"
  proof (cases cs)
    case Nil
    then show ?thesis using Cons.prems(2) by simp
  next
    case (Cons d ds)
    then show ?thesis using cs by auto
  qed
  have "stripFences ((c # cs) @ ''```'') = c # stripFences (cs @ ''```'')"
    using c n by (subst stripFences.simps) (auto simp add: Let_def)
  then show ?case using Cons.IH[OF cs l] by simp
qed

lemma stripFences_closing_line:
  assumes "CHR ''`'' \<notin> set body"
  shows "stripFences (body @ CHR 0x0A # ''```'' @ rest) = body @ stripFences rest"
  using assms
proof (induction body)
  case Nil
  show ?case
    by (subst stripFences.simps) (simp add: Let_def)
next
  case (Cons c cs)
  then have c: "c \<noteq> CHR ''`''" and cs: "CHR ''`'' \<notin> set cs" by auto
  have n: "take 4 ((c # cs) @ CHR 0x0A # ''```'' @ rest) \<noteq> CHR 0x0A # ''```''"
  proof (cases cs)
    case Nil
    then show ?thesis by simp
  next
    case (Cons d ds)
    then show ?thesis using cs by auto
  qed
  have "stripFences ((c # cs) @ CHR 0x0A # ''```'' @ rest) = c # stripFences (cs @ CHR 0x0A # ''```'' @ rest)"
    using c n by (subst stripFences.simps) (auto simp add: Let_def)
  then show ?case using Cons.IH[OF cs] by simp
qed

lemma stripFences_plain:
  assumes "CHR ''`'' \<notin> set t"
  shows "stripFences t = t"
  using assms
proof (induction t)
  case Nil
  show ?case by (rule stripFences_Nil)
next
  case (Cons c cs)
  then have c: "c \<noteq> CHR ''`''" and cs: "CHR ''`'' \<notin> set cs" by auto
  have n: "take 4 (c # cs) \<noteq> CHR 0x0A # ''```''"
  proof (cases cs)
    case Nil
    then show ?thesis by simp
  next
    case (Cons d ds)
    then show ?thesis using cs by auto
  qed
  have "stripFences (c # cs) = c # stripFences cs"
    using c n by (subst stripFences.simps) (auto simp add: Let_def)
  then show ?case using Cons.IH[OF cs] by simp
qed

lemma stripFences_opening:
  "stripFences (''```json'' @ r) = stripFences (if r \<noteq> [] \<and> hd r = CHR 0x0A then tl r else r)"
  by (subst stripFences.simps) (simp add: Let_def)

lemma isTrimmed_iff:
  "isTrimmed c \<longleftrightarrow>
     c \<in> {CHR 0x09, CHR 0x0A, CHR 0x0B, CHR 0x0C, CHR 0x0D, CHR 0x20, CHR 0xA0}"
proof -
  have e: "(of_char c = (of_char d :: nat)) = (c = d)" for d by simp
  have "isTrimmed c \<longleftrightarrow>
     (of_char c :: nat) \<in> {of_char (CHR 0x09), of_char (CHR 0x0A), of_char (CHR 0x0B),
        of_char (CHR 0x0C), of_char (CHR 0x0D), of_char (CHR 0x20), of_char (CHR 0xA0)}"
    by (simp add: isTrimmed_def)
  then show ?thesis unfolding insert_iff e by simp
qed

lemma trim_padded:
  assumes "\<forall>c \<in> set ws1. isTrimmed c" "\<forall>c \<in> set ws2. isTrimmed c"
    and "core \<noteq> []" "\<not> isTrimmed (hd core)" "\<not> isTrimmed (last core)"
  shows "trim (ws1 @ core @ ws2) = core"
proof -
  have 1: "dropWhile isTrimmed (ws1 @ core @ ws2) = core @ ws2"
    using assms(1,3,4) by (cases core) (simp_all add: dropWhile_append)
  have r: "rev core \<noteq> []" "\<not> isTrimmed (hd (rev core))"
    using assms(3,5) by (simp_all add: hd_rev)
  have 2: "dropWhile isTrimmed (rev ws2 @ rev core) = rev core"
    using assms(2) r by (cases "rev core") (simp_all add: dropWhile_append)
  show ?thesis by (simp add: trim_def 1 2)
qed

text \<open>What is parsed when the answer is a padded text between fences.\<close>

lemma fenced_text:
  assumes "\<forall>c \<in> set ws1. isTrimmed c" "\<forall>c \<in> set ws2. isTrimmed c"
    and "core \<noteq> []" "\<not> isTrimmed (hd core)" "\<not> isTrimmed (last core)"
    and "CHR ''`'' \<notin> set core"
  shows "trim (stripFences (''```json'' @ ws1 @ core @ ws2 @ ''```'')) = core"
proof -
  have b: "\<not> isTrimmed (CHR ''`'')" by (simp add: isTrimmed_iff)
  have n1: "CHR ''`'' \<notin> set ws1" and n2: "CHR ''`'' \<notin> set ws2"
    using assms(1,2) b by auto
  define r where "r = ws1 @ core @ ws2 @ ''```''"
  define ws1' where "ws1' = (if ws1 \<noteq> [] \<and> hd ws1 = CHR 0x0A then tl ws1 else ws1)"
  have w1: "\<forall>c \<in> set ws1'. isTrimmed c" and m1: "CHR ''`'' \<notin> set ws1'"
    using assms(1) n1 by (auto simp: ws1'_def dest: list.set_sel(2))
  have "hd core \<noteq> CHR 0x0A" using assms(4) by (auto simp: isTrimmed_iff)
  then have o: "(if r \<noteq> [] \<and> hd r = CHR 0x0A then tl r else r) = ws1' @ core @ ws2 @ ''```''"
    using assms(3) by (cases ws1) (auto simp: r_def ws1'_def)
  have s: "stripFences (''```json'' @ ws1 @ core @ ws2 @ ''```'') = stripFences (ws1' @ core @ ws2 @ ''```'')"
    using stripFences_opening[of r] unfolding o by (simp add: r_def)
  show ?thesis
  proof (cases "ws2 \<noteq> [] \<and> last ws2 = CHR 0x0A")
    case True
    then obtain ws2' where w: "ws2 = ws2' @ [CHR 0x0A]"
      by (metis append_butlast_last_id)
    have w2: "\<forall>c \<in> set ws2'. isTrimmed c" and m2: "CHR ''`'' \<notin> set ws2'"
      using assms(2) n2 by (auto simp: w)
    have "stripFences ((ws1' @ core @ ws2') @ CHR 0x0A # ''```'' @ []) = (ws1' @ core @ ws2') @ stripFences []"
      by (rule stripFences_closing_line) (use m1 m2 assms(6) in auto)
    then have "stripFences (ws1' @ core @ ws2 @ ''```'') = ws1' @ core @ ws2'"
      by (simp add: w stripFences_Nil)
    then show ?thesis unfolding s using trim_padded[OF w1 w2 assms(3,4,5)] by simp
  next
    case False
    have "last (ws1' @ core @ ws2) \<noteq> CHR 0x0A"
    proof (cases "ws2 = []")
      case True
      then show ?thesis using assms(3,5) by (auto simp: isTrimmed_iff)
    next
      case ne: False
      then show ?thesis using False by simp
    qed
    then have l: "ws1' @ core @ ws2 = [] \<or> last (ws1' @ core @ ws2) \<noteq> CHR 0x0A" by simp
    have "stripFences ((ws1' @ core @ ws2) @ ''```'') = ws1' @ core @ ws2"
      by (rule stripFences_closing[OF _ l]) (use m1 n2 assms(6) in auto)
    then have "stripFences (ws1' @ core @ ws2 @ ''```'') = ws1' @ core @ ws2"
      by simp
    then show ?thesis unfolding s using trim_padded[OF w1 assms(2,3,4,5)] by simp
  qed
qed

lemma plain_text:
  assumes "\<forall>c \<in> set ws1. isTrimmed c" "\<forall>c \<in> set ws2. isTrimmed c"
    and "core \<noteq> []" "\<not> isTrimmed (hd core)" "\<not> isTrimmed (last core)"
    and "CHR ''`'' \<notin> set core"
  shows "trim (stripFences (ws1 @ core @ ws2)) = core"
proof -
  have b: "\<not> isTrimmed (CHR ''`'')" by (simp add: isTrimmed_iff)
  have "CHR ''`'' \<notin> set (ws1 @ core @ ws2)"
    using assms(1,2,6) b by auto
  then show ?thesis using trim_padded[OF assms(1-5)] by (simp add: stripFences_plain)
qed

text \<open>
  Claim C2, as the code has it. Let the client be available and let the service answer the plan
  request. Without a text, or with the empty text, \<open>generateBannerPlan\<close> fails with the error
  \<open>No text returned from Gemini\<close>. With a text it removes the fences, trims, and parses: it fails
  with the error \<open>Invalid JSON response from AI\<close> exactly when that text does not parse, and
  whatever value it parses to is returned as the plan, without any check of its shape. What is
  parsed from a text \<open>core\<close> without backticks that is padded with white space, between the
  fences \<open>```json\<close> and \<open>```\<close> or without fences, is \<open>core\<close> itself.
\<close>

theorem generateBannerPlan_returns_parsed:
  assumes "getClient g st = Inr st1"
    and "planService g (length (requests st1)) (planRequest request) = TextResolved responseText"
    and "W = {CHR 0x09, CHR 0x0A, CHR 0x0B, CHR 0x0C, CHR 0x0D, CHR 0x20, CHR 0xA0}"
  shows "(responseText = None \<or> responseText = Some [] \<longrightarrow>
            fst (generateBannerPlan parse g request st) = Inl (Error ''No text returned from Gemini''))
       \<and> (\<forall>t. responseText = Some t \<and> t \<noteq> [] \<longrightarrow>
            (parse (trim (stripFences t)) = None \<longrightarrow>
               fst (generateBannerPlan parse g request st) = Inl (Error ''Invalid JSON response from AI''))
            \<and> (\<forall>plan. parse (trim (stripFences t)) = Some plan \<longrightarrow>
                 fst (generateBannerPlan parse g request st) = Inr plan))
       \<and> (\<forall>ws1 core ws2.
            (responseText = Some (''```json'' @ ws1 @ core @ ws2 @ ''```'')
               \<or> responseText = Some (ws1 @ core @ ws2))
            \<and> set ws1 \<subseteq> W \<and> set ws2 \<subseteq> W \<and> core \<noteq> [] \<and> hd core \<notin> W \<and> last core \<notin> W
            \<and> CHR ''`'' \<notin> set core \<longrightarrow>
            fst (generateBannerPlan parse g request st) =
              (case parse core of None \<Rightarrow> Inl (Error ''Invalid JSON response from AI'')
               | Some plan \<Rightarrow> Inr plan))"
proof (intro conjI allI impI)
  assume "responseText = None \<or> responseText = Some []"
  then show "fst (generateBannerPlan parse g request st) = Inl (Error ''No text returned from Gemini'')"
    using assms(1,2) by (auto simp add: generateBannerPlan_def planFromText_def nonEmpty_def Let_def)
next
  fix t
  assume "responseText = Some t \<and> t \<noteq> []" "parse (trim (stripFences t)) = None"
  then show "fst (generateBannerPlan parse g request st) = Inl (Error ''Invalid JSON response from AI'')"
    using assms(1,2) by (simp add: generateBannerPlan_def planFromText_def nonEmpty_def Let_def)
next
  fix t plan
  assume "responseText = Some t \<and> t \<noteq> []" "parse (trim (stripFences t)) = Some plan"
  then show "fst (generateBannerPlan parse g request st) = Inr plan"
    using assms(1,2) by (simp add: generateBannerPlan_def planFromText_def nonEmpty_def Let_def)
next
  fix ws1 core ws2
  assume a: "(responseText = Some (''```json'' @ ws1 @ core @ ws2 @ ''```'')
               \<or> responseText = Some (ws1 @ core @ ws2))
            \<and> set ws1 \<subseteq> W \<and> set ws2 \<subseteq> W \<and> core \<noteq> [] \<and> hd core \<notin> W \<and> last core \<notin> W
            \<and> CHR ''`'' \<notin> set core"
  have w: "\<forall>c \<in> set ws1. isTrimmed c" "\<forall>c \<in> set ws2. isTrimmed c"
    "core \<noteq> []" "\<not> isTrimmed (hd core)" "\<not> isTrimmed (last core)" "CHR ''`'' \<notin> set core"
    using a unfolding isTrimmed_iff assms(3) by blast+
  from a obtain t where t: "responseText = Some t" "t \<noteq> []" "trim (stripFences t) = core"
    using fenced_text[OF w] plain_text[OF w] w(3) by auto
  show "fst (generateBannerPlan parse g request st) =
              (case parse core of None \<Rightarrow> Inl (Error ''Invalid JSON response from AI'')
               | Some plan \<Rightarrow> Inr plan)"
    using assms(1,2) t
    by (simp add: generateBannerPlan_def planFromText_def nonEmpty_def Let_def)
qed


lemma no_plan_text: "jsonParse ''Sorry, no plan.'' = None"
  by code_simp

lemma small_object_parses: \<open>jsonParse ''{"ok":true}'' = Some (JObject [(''ok'', JBoolean True)])\<close>
  by code_simp

text \<open>
  The theorem on a service that answers without a text, on an answer that is not JSON, and on
  an answer between fences, padded with spaces and line feeds.
\<close>

theorem generateBannerPlan_returns_parsed_witness:
  \<open>getClient refusing freshSession = Inr (freshSession\<lparr>ai := True\<rparr>)
   \<and> planService refusing 0 (planRequest bannerRequest) = TextResolved None
   \<and> fst (generateBannerPlan jsonParse refusing bannerRequest freshSession)
       = Inl (Error ''No text returned from Gemini'')
   \<and> fst (generateBannerPlan jsonParse (answering ''Sorry, no plan.'') bannerRequest freshSession)
       = Inl (Error ''Invalid JSON response from AI'')
   \<and> fst (generateBannerPlan jsonParse
        (answering (''```json'' @ [CHR 0x0A, CHR 0x20, CHR 0x20] @ ''{"ok":true}''
                    @ [CHR 0x20, CHR 0x0A] @ ''```''))
        bannerRequest freshSession)
       = Inr (JObject [(''ok'', JBoolean True)])\<close>
proof -
  let ?W = "{CHR 0x09, CHR 0x0A, CHR 0x0B, CHR 0x0C, CHR 0x0D, CHR 0x20, CHR 0xA0}"
  let ?fenced = \<open>''```json'' @ [CHR 0x0A, CHR 0x20, CHR 0x20] @ ''{"ok":true}''
                    @ [CHR 0x20, CHR 0x0A] @ ''```''\<close>
  have c: "getClient g freshSession = Inr (freshSession\<lparr>ai := True\<rparr>)"
    if "apiKey g = Some ''key''" for g
    using that by (simp add: getClient_def freshSession_def)
  have k: "apiKey refusing = Some ''key''" "apiKey (answering t) = Some ''key''" for t
    by (simp_all add: refusing_def answering_def)
  have p0: "planService refusing (length (requests (freshSession\<lparr>ai := True\<rparr>)))
              (planRequest bannerRequest) = TextResolved None"
    by (simp add: refusing_def)
  have p: "planService (answering t) (length (requests (freshSession\<lparr>ai := True\<rparr>)))
              (planRequest bannerRequest) = TextResolved (Some t)" for t
    by (simp add: answering_def)
  have 1: "fst (generateBannerPlan jsonParse refusing bannerRequest freshSession)
       = Inl (Error ''No text returned from Gemini'')"
    using generateBannerPlan_returns_parsed[OF c[OF k(1)] p0 refl, of jsonParse, THEN conjunct1]
    by simp
  have 2: "fst (generateBannerPlan jsonParse (answering ''Sorry, no plan.'') bannerRequest freshSession)
       = Inl (Error ''Invalid JSON response from AI'')"
    using generateBannerPlan_returns_parsed[OF c[OF k(2)] p refl, of "''Sorry, no plan.''" jsonParse,
        THEN conjunct2, THEN conjunct2, THEN spec, THEN spec, THEN spec,
        of "[]" "''Sorry, no plan.''" "[]"]
    by (simp add: no_plan_text)
  have 3: "fst (generateBannerPlan jsonParse (answering ?fenced) bannerRequest freshSession)
       = Inr (JObject [(''ok'', JBoolean True)])"
    using generateBannerPlan_returns_parsed[OF c[OF k(2)] p refl, of ?fenced jsonParse,
        THEN conjunct2, THEN conjunct2, THEN spec, THEN spec, THEN spec,
        of "[CHR 0x0A, CHR 0x20, CHR 0x20]" \<open>''{"ok":true}''\<close> "[CHR 0x20, CHR 0x0A]"]
    by (simp add: small_object_parses)
  show ?thesis
    using 1 2 3 c[OF k(1)] p0 by (simp add: freshSession_def)
qed

lemma plan_text_parses:
  \<open>jsonParse (trim (stripFences planWithoutSlides)) =
     Some (JObject
       [(''main_banner'', JObject [(''headline'', JString ''H''), (''subheadline'', JString ''S''),
          (''image_prompt'', JString ''P''), (''description'', JString ''D''), (''cta'', JString ''C'')]),
        (''seo'', JObject [(''caption'', JString ''c''), (''hashtags'', JArray []),
          (''keywords'', JArray [])])])\<close>
  by code_simp

text \<open>
  Claim C2 as stated fails on a fenced answer that is JSON and has no \<open>additional_banners\<close>:
  it is returned as the plan.
\<close>

theorem generateBannerPlan_partial_plan_counterexample:
  \<open>fst (generateBannerPlan jsonParse (answering planWithoutSlides) bannerRequest freshSession) =
     Inr (JObject
       [(''main_banner'', JObject [(''headline'', JString ''H''), (''subheadline'', JString ''S''),
          (''image_prompt'', JString ''P''), (''description'', JString ''D''), (''cta'', JString ''C'')]),
        (''seo'', JObject [(''caption'', JString ''c''), (''hashtags'', JArray []),
          (''keywords'', JArray [])])])
   \<and> member (JObject
       [(''main_banner'', JObject [(''headline'', JString ''H''), (''subheadline'', JString ''S''),
          (''image_prompt'', JString ''P''), (''description'', JString ''D''), (''cta'', JString ''C'')]),
        (''seo'', JObject [(''caption'', JString ''c''), (''hashtags'', JArray []),
          (''keywords'', JArray [])])]) ''additional_banners'' = None
   \<and> \<not> isBannerPlan (JObject
       [(''main_banner'', JObject [(''headline'', JString ''H''), (''subheadline'', JString ''S''),
          (''image_prompt'', JString ''P''), (''description'', JString ''D''), (''cta'', JString ''C'')]),
        (''seo'', JObject [(''caption'', JString ''c''), (''hashtags'', JArray []),
          (''keywords'', JArray [])])])\<close>
proof -
  have "planWithoutSlides \<noteq> []" by (simp add: planWithoutSlides_def)
  then show ?thesis
    by (simp add: generateBannerPlan_def getClient_def answering_def freshSession_def Let_def
        planFromText_def nonEmpty_def plan_text_parses member_def isBannerPlan_def)
qed

end
